theory Spec2Isabelle
  imports Main
begin

section \<open>The command-line entry point of mlbv: \<open>mlbam/mlbv.py\<close>\<close>

text \<open>
  The only function of the source file is \<open>main\<close>. It parses the command line, copies
  options into the global configuration, fetches the game catalogue, selects the game of the
  requested team, optionally blocks until the scheduled start of that game, refreshes the
  catalogue after the wait and finally hands over to the stream player.

  The modules \<open>gamedata\<close>, \<open>stream\<close>, \<open>standings\<close>, \<open>util\<close> and \<open>config\<close> are
  collaborators whose code is not part of the file. What \<open>main\<close> needs from them is a field
  of the record \<open>env\<close>; every call with an effect is written to a trace of events, so that
  statements such as "the player is never invoked" are statements about that trace.
\<close>

subsection \<open>Data\<close>

text \<open>Exceptions that can leave \<open>main\<close>: the user's interrupt during \<open>time.sleep\<close>, and
  subscripting \<open>None\<close> in \<open>game_rec['mlbdate']\<close>.\<close>

datatype error = KeyboardInterrupt | TypeError

text \<open>A game record is a dictionary; \<open>main\<close> reads only its key \<open>'mlbdate'\<close>, the scheduled
  start (a timestamp, in seconds). All other keys live in the extension of the record.\<close>

record game_rec =
  mlbdate :: int

text \<open>The namespace returned by \<open>parser.parse_args()\<close>, one field for each
  \<open>add_argument\<close> of the source. An option that was not given is \<open>None\<close>.\<close>

record args =
  date :: "string option"
  inning :: "string option"
  inning_offset :: "int option"
  from_start :: bool
  days :: int
  tomorrow :: bool
  yesterday :: bool
  team :: "string option"
  feed :: "string option"
  favs :: "string option"
  filter_opt :: bool
  game :: string
  resolution :: "string option"
  scores :: bool
  no_scores :: bool
  linescore :: bool
  username :: "string option"
  password :: "string option"
  fetch :: bool
  wait :: bool
  standings :: "string option"
  verbose :: bool
  debug :: bool

text \<open>The observable effects of \<open>main\<close>, in the order in which they happen.\<close>

datatype 'r event =
    LogWarn string
  | LogInfo string
  | LogError string
  | Print string
  | Sleep int
  | GetStandings string string
  | Retrieve string int bool
  | PlayStream "'r option" string "string option" string bool bool "string option"

text \<open>The mutable world: the clock (seconds), the global \<open>config.CONFIG.parser\<close> and the
  trace of effects so far. Only \<open>time.sleep\<close> advances the clock: every other call is taken
  to return at once.\<close>

record 'r state =
  now :: int
  config :: "string \<rightharpoonup> string"
  trace :: "'r event list"

text \<open>
  The collaborators, taken as parameters:
  \<^item> \<open>TEAM_CODES\<close> is \<open>gamedata.TEAM_CODES\<close>;
  \<^item> \<open>MLBConfig\<close> is the configuration that \<open>config.MLBConfig()\<close> loads;
  \<^item> \<open>convert_to_long_feedtype\<close> is \<open>gamedata.convert_to_long_feedtype\<close>;
  \<^item> \<open>retrieve_and_display_game_data\<close> is the method of \<open>gamedata.GameData\<close>; its first
    argument is the time of the call, since the remote catalogue changes with time;
  \<^item> \<open>get_game_rec\<close> is \<open>stream.get_game_rec\<close>, the game selector, whose result may be
    absent (Python's \<open>None\<close>);
  \<^item> \<open>play_stream\<close> is \<open>stream.play_stream\<close>, whose result is the exit code;
  \<^item> \<open>convert_time_to_local\<close> is \<open>util.convert_time_to_local\<close>;
  \<^item> \<open>strftime_ymd\<close> formats a timestamp as \<open>%Y-%m-%d\<close>;
  \<^item> \<open>sigint\<close> is the time at which the user presses Ctrl-c, if ever.
\<close>

record ('gd, 'r) env =
  TEAM_CODES :: "string list"
  MLBConfig :: "string \<rightharpoonup> string"
  convert_to_long_feedtype :: "string \<Rightarrow> string"
  retrieve_and_display_game_data :: "int \<Rightarrow> string \<Rightarrow> int \<Rightarrow> bool \<Rightarrow> 'gd list"
  get_game_rec :: "'gd \<Rightarrow> string \<Rightarrow> string \<Rightarrow> 'r option"
  play_stream :: "'r option \<Rightarrow> string \<Rightarrow> string option \<Rightarrow> string \<Rightarrow> bool \<Rightarrow> bool
                    \<Rightarrow> string option \<Rightarrow> int"
  convert_time_to_local :: "int \<Rightarrow> string"
  strftime_ymd :: "int \<Rightarrow> string"
  sigint :: "int option"

subsection \<open>Python primitives\<close>

text \<open>Truthiness of an optional string, as in \<open>if args.team:\<close>: \<open>None\<close> and the
  empty string are false. The result is the string when it is true.\<close>

definition truthy :: "string option \<Rightarrow> string option" where
  "truthy x = (case x of None \<Rightarrow> None | Some v \<Rightarrow> if v = [] then None else Some v)"

text \<open>
  A string is a list of characters, and a character is a code point below 256. On these
  code points, \<open>str.lower()\<close> changes the capital letters and nothing else: the letters A
  to Z (65 to 90) and the accented capitals U+00C0 to U+00DE (192 to 222) without the
  multiplication sign U+00D7 (215); the small letter of each is 32 code points later.
\<close>

definition is_capital :: "char \<Rightarrow> bool" where
  "is_capital c =
     ((65 \<le> (of_char c :: nat) \<and> (of_char c :: nat) \<le> 90) \<or>
      (192 \<le> (of_char c :: nat) \<and> (of_char c :: nat) \<le> 222 \<and> (of_char c :: nat) \<noteq> 215))"

definition lower_char :: "char \<Rightarrow> char" where
  "lower_char c = (if is_capital c then char_of ((of_char c :: nat) + 32) else c)"

definition lower :: "string \<Rightarrow> string" where
  "lower s = map lower_char s"

text \<open>\<open>str(n)\<close> for an integer.\<close>

fun str_nat :: "nat \<Rightarrow> string" where
  "str_nat n =
     (if n < 10 then [char_of (48 + n)]
      else str_nat (n div 10) @ [char_of (48 + n mod 10)])"

definition str_int :: "int \<Rightarrow> string" where
  "str_int i = (if i < 0 then CHR ''-'' # str_nat (nat (- i)) else str_nat (nat i))"

text \<open>An effect is appended to the trace.\<close>

definition emit :: "'r event \<Rightarrow> 'r state \<Rightarrow> 'r state" where
  "emit e s = s\<lparr>trace := trace s @ [e]\<rparr>"

text \<open>\<open>config.CONFIG.parser[key] = v\<close>.\<close>

definition set_config :: "string \<Rightarrow> string \<Rightarrow> 'r state \<Rightarrow> 'r state" where
  "set_config key v s = s\<lparr>config := (config s)(key \<mapsto> v)\<rparr>"

text \<open>\<open>if flag: config.CONFIG.parser[key] = 'true'\<close>, for a \<open>store_true\<close> option.\<close>

definition set_flag :: "bool \<Rightarrow> string \<Rightarrow> 'r state \<Rightarrow> 'r state" where
  "set_flag flag key s = (if flag then set_config key ''true'' s else s)"

text \<open>\<open>if args.opt: config.CONFIG.parser[key] = args.opt\<close>, for a string option.\<close>

definition set_opt :: "string option \<Rightarrow> string \<Rightarrow> 'r state \<Rightarrow> 'r state" where
  "set_opt opt key s = (case truthy opt of None \<Rightarrow> s | Some v \<Rightarrow> set_config key v s)"

text \<open>
  \<open>time.sleep(secs)\<close>: the clock advances by \<open>secs\<close>, unless the interrupt arrives before
  the sleep is over; then \<open>KeyboardInterrupt\<close> is raised at the time of the interrupt (at
  once, when the interrupt is already pending).
\<close>

definition sleep :: "('gd, 'r) env \<Rightarrow> int \<Rightarrow> 'r state \<Rightarrow> (error + unit) \<times> 'r state" where
  "sleep env secs s =
     (let s1 = emit (Sleep secs) s in
      case sigint env of
        None \<Rightarrow> (Inr (), s1\<lparr>now := now s + secs\<rparr>)
      | Some g \<Rightarrow>
          if g < now s + secs then (Inl KeyboardInterrupt, s1\<lparr>now := max (now s) g\<rparr>)
          else (Inr (), s1\<lparr>now := now s + secs\<rparr>))"

text \<open>
  Modelled from the spec: \<open>util.has_reached_time\<close> is not part of the source file. The spec
  describes it as the check "has current time reached scheduledStart".
\<close>

definition has_reached_time :: "'r state \<Rightarrow> int \<Rightarrow> bool" where
  "has_reached_time s t = (t \<le> now s)"

subsection \<open>The polling loop (lines 165 to 170)\<close>

text \<open>
  \<^verbatim>\<open>
  while not util.has_reached_time(game_rec['mlbdate']):
      time.sleep(10)
      count += 1
      if count % 6 == 0:
          print('.', end='', flush=True)
  \<close>
  The result is the final value of \<open>count\<close>, or the exception raised by \<open>time.sleep\<close>.
\<close>

function poll_loop ::
  "('gd, 'r) env \<Rightarrow> int \<Rightarrow> nat \<Rightarrow> 'r state \<Rightarrow> (error + nat) \<times> 'r state" where
  "poll_loop env t count s =
     (if \<not> has_reached_time s t then
        (case sleep env 10 s of
           (Inl e, s1) \<Rightarrow> (Inl e, s1)
         | (Inr _, s1) \<Rightarrow>
             (let count1 = count + 1;
                  s2 = (if count1 mod 6 = 0 then emit (Print ''.'') s1 else s1)
              in poll_loop env t count1 s2))
      else (Inr count, s))"
  by pat_completeness auto
termination
  apply (relation "measure (\<lambda>(env, t, count, s). nat (t - now s))")
   apply simp
  apply (auto simp: has_reached_time_def sleep_def emit_def Let_def
              split: option.splits if_splits)
  done

text \<open>The equation of the loop is unfolded by hand, one iteration at a time.\<close>

declare poll_loop.simps [simp del]

subsection \<open>The entry point\<close>

text \<open>Lines 115 and 116: \<open>team_to_play\<close> is \<open>None\<close> unless \<open>args.team\<close> is true, and
  then it is \<open>args.team.lower()\<close>.\<close>

definition team_to_play_of :: "args \<Rightarrow> string option" where
  "team_to_play_of a = map_option lower (truthy (team a))"

text \<open>Lines 120 and 121: \<open>feedtype\<close>.\<close>

definition feedtype_of :: "('gd, 'r) env \<Rightarrow> args \<Rightarrow> string option" where
  "feedtype_of env a =
     map_option (\<lambda>f. convert_to_long_feedtype env (lower f)) (truthy (feed a))"

text \<open>Lines 135 to 140: the value of \<open>args.date\<close> after the date options are resolved;
  \<open>t\<close> is the time of \<open>datetime.today()\<close>, and a day has 86400 seconds.\<close>

definition date_of :: "('gd, 'r) env \<Rightarrow> args \<Rightarrow> int \<Rightarrow> string" where
  "date_of env a t =
     (if yesterday a then strftime_ymd env (t - 86400)
      else if tomorrow a then strftime_ymd env (t + 86400)
      else case date a of None \<Rightarrow> strftime_ymd env t | Some d \<Rightarrow> d)"

text \<open>
  Lines 94 to 133, the effects before the first decision: the configuration is loaded, the
  options are copied into it, and an unknown team code is reported by \<open>LOG.warn\<close>.
\<close>

definition apply_options :: "('gd, 'r) env \<Rightarrow> args \<Rightarrow> 'r state \<Rightarrow> 'r state" where
  "apply_options env a s0 =
     (let s1 = s0\<lparr>config := MLBConfig env\<rparr>;
          s2 = set_flag (debug a) ''debug'' s1;
          s3 = set_flag (verbose a) ''verbose'' s2;
          s4 = set_opt (username a) ''username'' s3;
          s5 = set_opt (password a) ''password'' s4;
          s6 = (case inning_offset a of
                  None \<Rightarrow> s5
                | Some n \<Rightarrow>
                    if n \<noteq> 0 then set_config ''stream_start_offset_secs'' (str_int n) s5
                    else s5);
          s7 = (case team_to_play_of a of
                  None \<Rightarrow> s6
                | Some t \<Rightarrow>
                    if t \<notin> set (TEAM_CODES env)
                    then emit (LogWarn (''Unexpected team code: '' @ t)) s6 else s6);
          s8 = set_opt (resolution a) ''resolution'' s7;
          s9 = (if scores a then set_config ''scores'' ''true'' s8
                else if no_scores a then set_config ''scores'' ''false'' s8
                else s8);
          s10 = set_flag (linescore a) ''linescore'' s9;
          s11 = set_opt (favs a) ''favs'' s10
      in set_flag (filter_opt a) ''filter'' s11)"

text \<open>Line 183: \<open>return stream.play_stream(game_rec, team_to_play, feedtype, args.date,
  args.fetch, args.from_start, args.inning)\<close>. The result of the player is the exit code.\<close>

definition dispatch ::
  "('gd, 'r) env \<Rightarrow> args \<Rightarrow> string \<Rightarrow> string option \<Rightarrow> string \<Rightarrow> 'r option \<Rightarrow> 'r state
     \<Rightarrow> (error + int) \<times> 'r state" where
  "dispatch env a team_to_play feedtype date_str game_rec s =
     (Inr (play_stream env game_rec team_to_play feedtype date_str (fetch a) (from_start a)
             (inning a)),
      emit (PlayStream game_rec team_to_play feedtype date_str (fetch a) (from_start a)
             (inning a)) s)"

text \<open>Lines 172 to 183, after the polling loop: the catalogue is fetched again for one day
  without display, and the game is selected again from the first entry of the answer.\<close>

definition refresh_and_play ::
  "('gd, 'r) env \<Rightarrow> args \<Rightarrow> string \<Rightarrow> string option \<Rightarrow> string \<Rightarrow> 'r state
     \<Rightarrow> (error + int) \<times> 'r state" where
  "refresh_and_play env a team_to_play feedtype date_str s =
     (let s1 = emit (LogInfo ''Game time. Refreshing game data after wait...'') s;
          game_data_list = retrieve_and_display_game_data env (now s1) date_str 1 False;
          s2 = emit (Retrieve date_str 1 False) s1
      in case game_data_list of
           [] \<Rightarrow>
             (Inr 0,
              emit (LogError ''Unexpected error: no game data found after refresh on wait'') s2)
         | game_data # _ \<Rightarrow>
             dispatch env a team_to_play feedtype date_str
               (get_game_rec env game_data team_to_play (game a)) s2)"

text \<open>
  Lines 162 to 183, once \<open>game_rec\<close> has been selected. \<open>args.wait and not \<dots>\<close> is
  evaluated left to right, so the record is subscripted only when \<open>--wait\<close> was given;
  subscripting \<open>None\<close> raises \<open>TypeError\<close>.
\<close>

definition wait_and_play ::
  "('gd, 'x game_rec_scheme) env \<Rightarrow> args \<Rightarrow> string \<Rightarrow> string option \<Rightarrow> string
     \<Rightarrow> 'x game_rec_scheme option \<Rightarrow> 'x game_rec_scheme state
     \<Rightarrow> (error + int) \<times> 'x game_rec_scheme state" where
  "wait_and_play env a team_to_play feedtype date_str game_rec s =
     (if wait a then
        (case game_rec of
           None \<Rightarrow> (Inl TypeError, s)
         | Some r \<Rightarrow>
             if \<not> has_reached_time s (mlbdate r) then
               (let s1 = emit (LogInfo (''Waiting for game to start. Local start time is '' @
                                 convert_time_to_local env (mlbdate r))) s;
                    s2 = emit (Print ''Use Ctrl-c to quit .'') s1
                in case poll_loop env (mlbdate r) 0 s2 of
                     (Inl e, s3) \<Rightarrow> (Inl e, s3)
                   | (Inr _, s3) \<Rightarrow> refresh_and_play env a team_to_play feedtype date_str s3)
             else dispatch env a team_to_play feedtype date_str game_rec s)
      else dispatch env a team_to_play feedtype date_str game_rec s)"

text \<open>The function \<open>main\<close>, lines 90 to 183.\<close>

definition main ::
  "('gd, 'x game_rec_scheme) env \<Rightarrow> args \<Rightarrow> 'x game_rec_scheme state
     \<Rightarrow> (error + int) \<times> 'x game_rec_scheme state" where
  "main env a s0 =
     (let team_to_play = team_to_play_of a;
          feedtype = feedtype_of env a;
          s = apply_options env a s0;
          date_str = date_of env a (now s)
      in case truthy (standings a) of
           Some category \<Rightarrow> (Inr 0, emit (GetStandings category date_str) s)
         | None \<Rightarrow>
             (let game_data_list =
                    retrieve_and_display_game_data env (now s) date_str (days a)
                      (team_to_play = None);
                  s1 = emit (Retrieve date_str (days a) (team_to_play = None)) s
              in case team_to_play of
                   None \<Rightarrow> (Inr 0, s1)
                 | Some t \<Rightarrow>
                     (case game_data_list of
                        [] \<Rightarrow> (Inr 0, s1)
                      | game_data # _ \<Rightarrow>
                          wait_and_play env a t feedtype date_str
                            (get_game_rec env game_data t (game a)) s1)))"

text \<open>One invocation of the program that starts at time \<open>t0\<close>: the exit code or the
  exception, and the effects in the order in which they happened.\<close>

definition run ::
  "('gd, 'x game_rec_scheme) env \<Rightarrow> args \<Rightarrow> int
     \<Rightarrow> (error + int) \<times> 'x game_rec_scheme event list" where
  "run env a t0 =
     (case main env a \<lparr>now = t0, config = Map.empty, trace = []\<rparr> of
        (res, s) \<Rightarrow> (res, trace s))"

subsection \<open>Vocabulary of the statements\<close>

text \<open>The number of sleeps of 10 seconds after which a clock that shows \<open>t_now\<close> has
  reached \<open>t\<close>: the quotient \<open>(t - t_now) / 10\<close>, rounded up.\<close>

definition sleeps_needed :: "int \<Rightarrow> int \<Rightarrow> nat" where
  "sleeps_needed t_now t = nat ((t - t_now + 9) div 10)"

text \<open>The number of sleeps of 10 seconds that are over before the time \<open>g\<close>, on a clock
  that shows \<open>t_now\<close>.\<close>

definition sleeps_before :: "int \<Rightarrow> int \<Rightarrow> nat" where
  "sleeps_before t_now g = nat ((g - t_now) div 10)"

text \<open>The effects of iteration number \<open>i\<close> of the polling loop (the first one has number 1):
  it sleeps 10 seconds, and prints a dot when \<open>i\<close> is a multiple of 6.\<close>

definition iteration_events :: "nat \<Rightarrow> 'r event list" where
  "iteration_events i = Sleep 10 # (if i mod 6 = 0 then [Print ''.''] else [])"

text \<open>The effects of the iterations \<open>count + 1, \<dots>, count + n\<close>.\<close>

definition polling_events :: "nat \<Rightarrow> nat \<Rightarrow> 'r event list" where
  "polling_events count n = concat (map iteration_events [count + 1 ..< count + n + 1])"

text \<open>The call of the player in line 183 with the record \<open>game_rec\<close>, in a run of the
  arguments \<open>a\<close> for the team \<open>t\<close> that started at time \<open>t0\<close>: the event, and the exit code
  that the player returns.\<close>

definition play_event ::
  "('gd, 'r) env \<Rightarrow> args \<Rightarrow> string \<Rightarrow> int \<Rightarrow> 'r option \<Rightarrow> 'r event" where
  "play_event env a t t0 game_rec =
     PlayStream game_rec t (feedtype_of env a) (date_of env a t0) (fetch a) (from_start a)
       (inning a)"

definition play_code ::
  "('gd, 'r) env \<Rightarrow> args \<Rightarrow> string \<Rightarrow> int \<Rightarrow> 'r option \<Rightarrow> int" where
  "play_code env a t t0 game_rec =
     play_stream env game_rec t (feedtype_of env a) (date_of env a t0) (fetch a) (from_start a)
       (inning a)"

text \<open>The two messages of lines 163 and 164, before the polling loop.\<close>

definition waiting_events :: "('gd, 'r) env \<Rightarrow> int \<Rightarrow> 'r event list" where
  "waiting_events env start =
     [LogInfo (''Waiting for game to start. Local start time is '' @
               convert_time_to_local env start),
      Print ''Use Ctrl-c to quit .'']"

text \<open>The warning of line 119, as a list of at most one event.\<close>

definition team_warning :: "('gd, 'r) env \<Rightarrow> args \<Rightarrow> 'r event list" where
  "team_warning env a =
     (case team_to_play_of a of
        None \<Rightarrow> []
      | Some t \<Rightarrow>
          if t \<notin> set (TEAM_CODES env) then [LogWarn (''Unexpected team code: '' @ t)] else [])"

fun is_Retrieve :: "'r event \<Rightarrow> bool" where
  "is_Retrieve (Retrieve d n b) = True"
| "is_Retrieve e = False"

fun is_PlayStream :: "'r event \<Rightarrow> bool" where
  "is_PlayStream (PlayStream r t f d b1 b2 i) = True"
| "is_PlayStream e = False"

fun is_Sleep :: "'r event \<Rightarrow> bool" where
  "is_Sleep (Sleep n) = True"
| "is_Sleep e = False"

fun is_LogWarn :: "'r event \<Rightarrow> bool" where
  "is_LogWarn (LogWarn m) = True"
| "is_LogWarn e = False"

fun is_Print :: "'r event \<Rightarrow> bool" where
  "is_Print (Print m) = True"
| "is_Print e = False"

subsection \<open>A concrete catalogue\<close>

text \<open>A game record with the attributes that the selector reads.\<close>

record game = game_rec +
  home_abbrev :: string
  away_abbrev :: string
  gameNumber :: string

text \<open>
  Modelled from the spec: \<open>stream.get_game_rec\<close> is not part of the source file. The spec
  gives its contract as \<open>select(games, team, gameNumber)\<close>: the records in which the team
  appears as home or away and the double-header number matches, the first one in catalogue
  order, and absent when there is none.
\<close>

definition select :: "game list \<Rightarrow> string \<Rightarrow> string \<Rightarrow> game option" where
  "select games t g =
     find (\<lambda>r. (home_abbrev r = t \<or> away_abbrev r = t) \<and> gameNumber r = g) games"

text \<open>Two days of games: Boston at New York on the first day (start at time 25), Boston at
  Toronto on the second day.\<close>

definition day1 :: "game list" where
  "day1 = [\<lparr>mlbdate = 25, home_abbrev = ''nyy'', away_abbrev = ''bos'', gameNumber = ''1''\<rparr>]"

definition day2 :: "game list" where
  "day2 = [\<lparr>mlbdate = 86425, home_abbrev = ''tor'', away_abbrev = ''bos'', gameNumber = ''1''\<rparr>]"

text \<open>A catalogue that answers with the days asked for until the first game starts, and
  with \<open>refreshed\<close> afterwards; a player that returns 0 for a record and 1 for \<open>None\<close>; the
  interrupt \<open>sig\<close>.\<close>

definition demo_env :: "game list list \<Rightarrow> int option \<Rightarrow> (game list, game) env" where
  "demo_env refreshed sig =
     \<lparr>TEAM_CODES = [''bos'', ''nyy'', ''tor''],
      MLBConfig = Map.empty,
      convert_to_long_feedtype = (\<lambda>f. f),
      retrieve_and_display_game_data =
        (\<lambda>t d n display. if t < 25 then take (nat n) [day1, day2] else refreshed),
      get_game_rec = select,
      play_stream = (\<lambda>r t f d b1 b2 i. case r of None \<Rightarrow> 1 | Some _ \<Rightarrow> 0),
      convert_time_to_local = (\<lambda>t. ''19:05''),
      strftime_ymd = (\<lambda>t. ''2018-06-01''),
      sigint = sig\<rparr>"

text \<open>\<open>mlbv --team BOS\<close>, and every other option at its default.\<close>

definition demo_args :: args where
  "demo_args =
     \<lparr>date = None, inning = None, inning_offset = None, from_start = False, days = 1,
      tomorrow = False, yesterday = False, team = Some ''BOS'', feed = None, favs = None,
      filter_opt = False, game = ''1'', resolution = None, scores = False, no_scores = False,
      linescore = False, username = None, password = None, fetch = False, wait = False,
      standings = None, verbose = False, debug = False\<rparr>"

section \<open>Lemmas\<close>

subsection \<open>State bookkeeping\<close>

lemma emit_simps [simp]:
  "now (emit e s) = now s" "config (emit e s) = config s" "trace (emit e s) = trace s @ [e]"
  by (simp_all add: emit_def)

lemma set_config_simps [simp]:
  "now (set_config k v s) = now s" "trace (set_config k v s) = trace s"
  by (simp_all add: set_config_def)

lemma set_flag_simps [simp]:
  "now (set_flag b k s) = now s" "trace (set_flag b k s) = trace s"
  by (simp_all add: set_flag_def)

lemma set_opt_simps [simp]:
  "now (set_opt x k s) = now s" "trace (set_opt x k s) = trace s"
  by (simp_all add: set_opt_def split: option.splits)

lemma apply_options_now [simp]: "now (apply_options env a s) = now s"
  by (simp add: apply_options_def Let_def split: option.splits)

lemma apply_options_trace [simp]:
  "trace (apply_options env a s) = trace s @ team_warning env a"
  by (simp add: apply_options_def team_warning_def Let_def split: option.splits)

subsection \<open>Counting sleeps\<close>

lemma sleeps_needed_0 [simp]: "t \<le> u \<Longrightarrow> sleeps_needed u t = 0"
  by (simp add: sleeps_needed_def)

lemma sleeps_needed_step:
  assumes "u < t"
  shows "sleeps_needed u t = Suc (sleeps_needed (u + 10) t)"
proof -
  define y where "y = t - (u + 10) + 9"
  have y: "0 \<le> y" using assms by (simp add: y_def)
  have "t - u + 9 = y + 10" by (simp add: y_def)
  then have a: "(t - u + 9) div 10 = y div 10 + 1" by simp
  have b: "0 \<le> y div 10" using y by (simp add: pos_imp_zdiv_nonneg_iff)
  show ?thesis
    unfolding sleeps_needed_def a y_def [symmetric] using b by (simp add: nat_add_distrib)
qed

lemma sleeps_needed_pos: "u < t \<Longrightarrow> 0 < sleeps_needed u t"
  by (simp add: sleeps_needed_step)

lemma sleeps_needed_reach: "t \<le> u + 10 * int (sleeps_needed u t)"
proof -
  define y where "y = t - u + 9"
  define q where "q = y div 10"
  define r where "r = y mod 10"
  have "y = 10 * q + r" by (simp add: q_def r_def)
  moreover have "r < 10" by (simp add: r_def)
  moreover have "q \<le> int (nat q)" by simp
  ultimately have "t \<le> u + 10 * int (nat q)" unfolding y_def by linarith
  then show ?thesis by (simp add: sleeps_needed_def q_def y_def)
qed

lemma sleeps_needed_least:
  assumes "k < sleeps_needed u t"
  shows "u + 10 * int k < t"
proof -
  define y where "y = t - u + 9"
  define q where "q = y div 10"
  define r where "r = y mod 10"
  have "y = 10 * q + r" by (simp add: q_def r_def)
  moreover have "0 \<le> r" by (simp add: r_def)
  moreover have "int k < q" using assms by (simp add: sleeps_needed_def q_def y_def)
  ultimately show ?thesis unfolding y_def by linarith
qed

lemma sleeps_before_0:
  assumes "g < u + 10"
  shows "sleeps_before u g = 0"
proof -
  define q where "q = (g - u) div 10"
  define r where "r = (g - u) mod 10"
  have "g - u = 10 * q + r" by (simp add: q_def r_def)
  moreover have "0 \<le> r" by (simp add: r_def)
  ultimately have "q \<le> 0" using assms by linarith
  then show ?thesis by (simp add: sleeps_before_def q_def)
qed

lemma sleeps_before_step:
  assumes "u + 10 \<le> g"
  shows "sleeps_before u g = Suc (sleeps_before (u + 10) g)"
proof -
  define y where "y = g - (u + 10)"
  have y: "0 \<le> y" using assms by (simp add: y_def)
  have "g - u = y + 10" by (simp add: y_def)
  then have a: "(g - u) div 10 = y div 10 + 1" by simp
  have b: "0 \<le> y div 10" using y by (simp add: pos_imp_zdiv_nonneg_iff)
  show ?thesis
    unfolding sleeps_before_def a y_def [symmetric] using b by (simp add: nat_add_distrib)
qed

subsection \<open>The effects of the iterations\<close>

lemma polling_events_0 [simp]: "polling_events c 0 = []"
  by (simp add: polling_events_def)

lemma polling_events_Suc:
  "polling_events c (Suc n) = iteration_events (c + 1) @ polling_events (c + 1) n"
proof -
  have "[c + 1 ..< c + Suc n + 1] = (c + 1) # [c + 1 + 1 ..< c + 1 + n + 1]"
    by (subst upt_rec) simp
  then show ?thesis unfolding polling_events_def by simp
qed

lemma polling_events_snoc:
  "polling_events c (Suc n) = polling_events c n @ iteration_events (c + n + 1)"
  by (simp add: polling_events_def)

subsection \<open>The polling loop in closed form\<close>

lemma poll_loop_reached: "t \<le> now s \<Longrightarrow> poll_loop env t c s = (Inr c, s)"
  by (subst poll_loop.simps) (simp add: has_reached_time_def)

lemma poll_loop_unfold:
  assumes "now s < t" "sleep env 10 s = (Inr (), s1)"
  shows "poll_loop env t c s =
           poll_loop env t (c + 1) (if (c + 1) mod 6 = 0 then emit (Print ''.'') s1 else s1)"
  using assms by (subst poll_loop.simps) (simp add: has_reached_time_def Let_def)

lemma poll_loop_completes:
  "(\<And>g. sigint env = Some g \<Longrightarrow> now s + 10 * int (sleeps_needed (now s) t) \<le> g) \<Longrightarrow>
   poll_loop env t c s =
     (Inr (c + sleeps_needed (now s) t),
      s\<lparr>now := now s + 10 * int (sleeps_needed (now s) t),
        trace := trace s @ polling_events c (sleeps_needed (now s) t)\<rparr>)"
proof (induction n \<equiv> "sleeps_needed (now s) t" arbitrary: s c)
  case 0
  then have "t \<le> now s" using sleeps_needed_pos [of "now s" t] by (cases "now s < t") auto
  then show ?case by (simp add: poll_loop_reached)
next
  case (Suc n)
  then have lt: "now s < t" by (cases "now s < t") auto
  have n: "sleeps_needed (now s) t = Suc n" using Suc.hyps(2) by simp
  have n': "n = sleeps_needed (now s + 10) t" using n sleeps_needed_step [OF lt] by simp
  define s1 where "s1 = (emit (Sleep 10) s)\<lparr>now := now s + 10\<rparr>"
  have sl: "sleep env 10 s = (Inr (), s1)"
    using Suc.prems [unfolded n] by (auto simp: sleep_def s1_def Let_def split: option.splits)
  define s2 where "s2 = (if (c + 1) mod 6 = 0 then emit (Print ''.'') s1 else s1)"
  have now2: "now s2 = now s + 10" by (simp add: s2_def s1_def)
  have ih: "poll_loop env t (c + 1) s2 =
     (Inr (c + 1 + sleeps_needed (now s2) t),
      s2\<lparr>now := now s2 + 10 * int (sleeps_needed (now s2) t),
        trace := trace s2 @ polling_events (c + 1) (sleeps_needed (now s2) t)\<rparr>)"
  proof (rule Suc.hyps(1))
    show "n = sleeps_needed (now s2) t" using n' now2 by simp
    fix g assume "sigint env = Some g"
    from Suc.prems [OF this] show "now s2 + 10 * int (sleeps_needed (now s2) t) \<le> g"
      using n n' now2 by simp
  qed
  have "poll_loop env t c s = poll_loop env t (c + 1) s2"
    unfolding s2_def by (rule poll_loop_unfold [OF lt sl])
  also note ih
  finally show ?case using n n' now2
    by (simp add: s2_def s1_def emit_def polling_events_Suc iteration_events_def)
qed

lemma poll_loop_interrupted:
  "sigint env = Some g \<Longrightarrow> now s < t \<Longrightarrow> g < now s + 10 * int (sleeps_needed (now s) t) \<Longrightarrow>
   poll_loop env t c s =
     (Inl KeyboardInterrupt,
      s\<lparr>now := max (now s) g,
        trace := trace s @ polling_events c (sleeps_before (now s) g) @ [Sleep 10]\<rparr>)"
proof (induction k \<equiv> "sleeps_before (now s) g" arbitrary: s c)
  case 0
  have "g < now s + 10"
  proof (rule ccontr)
    assume "\<not> g < now s + 10"
    then have "sleeps_before (now s) g = Suc (sleeps_before (now s + 10) g)"
      by (intro sleeps_before_step) simp
    with 0 show False by simp
  qed
  then have sl: "sleep env 10 s =
      (Inl KeyboardInterrupt, (emit (Sleep 10) s)\<lparr>now := max (now s) g\<rparr>)"
    using 0 by (simp add: sleep_def Let_def)
  have "poll_loop env t c s = (Inl KeyboardInterrupt, (emit (Sleep 10) s)\<lparr>now := max (now s) g\<rparr>)"
    using 0 sl by (subst poll_loop.simps) (simp add: has_reached_time_def)
  then show ?case using 0(1) [symmetric] by (simp add: emit_def)
next
  case (Suc k)
  have ge: "now s + 10 \<le> g"
  proof (rule ccontr)
    assume "\<not> now s + 10 \<le> g"
    then have "sleeps_before (now s) g = 0" by (intro sleeps_before_0) simp
    with Suc.hyps(2) show False by simp
  qed
  have k: "sleeps_before (now s) g = Suc k" using Suc.hyps(2) by simp
  have k': "k = sleeps_before (now s + 10) g" using k sleeps_before_step [OF ge] by simp
  have n: "sleeps_needed (now s) t = Suc (sleeps_needed (now s + 10) t)"
    using Suc.prems(2) by (rule sleeps_needed_step)
  define s1 where "s1 = (emit (Sleep 10) s)\<lparr>now := now s + 10\<rparr>"
  have sl: "sleep env 10 s = (Inr (), s1)"
    using Suc.prems(1) ge by (simp add: sleep_def s1_def Let_def)
  define s2 where "s2 = (if (c + 1) mod 6 = 0 then emit (Print ''.'') s1 else s1)"
  have now2: "now s2 = now s + 10" by (simp add: s2_def s1_def)
  have g2: "g < now s2 + 10 * int (sleeps_needed (now s2) t)"
    using Suc.prems(3) n now2 by simp
  have lt2: "now s2 < t"
  proof (rule ccontr)
    assume "\<not> now s2 < t"
    then have "sleeps_needed (now s2) t = 0" by simp
    with g2 ge now2 show False by simp
  qed
  have ih: "poll_loop env t (c + 1) s2 =
     (Inl KeyboardInterrupt,
      s2\<lparr>now := max (now s2) g,
        trace := trace s2 @ polling_events (c + 1) (sleeps_before (now s2) g) @ [Sleep 10]\<rparr>)"
    using k' now2 Suc.prems(1) lt2 g2 by (intro Suc.hyps(1)) simp_all
  have "poll_loop env t c s = poll_loop env t (c + 1) s2"
    unfolding s2_def by (rule poll_loop_unfold [OF Suc.prems(2) sl])
  also note ih
  finally show ?case using k k' now2 ge
    by (simp add: s2_def s1_def emit_def polling_events_Suc iteration_events_def max_def)
qed

subsection \<open>The four ways through lines 162 to 183\<close>

lemma wait_and_play_direct:
  "\<not> wait a \<or> (\<exists>r. gr = Some r \<and> mlbdate r \<le> now s) \<Longrightarrow>
   wait_and_play env a t ft d gr s = dispatch env a t ft d gr s"
  by (auto simp: wait_and_play_def has_reached_time_def)

lemma wait_and_play_none:
  "wait a \<Longrightarrow> wait_and_play env a t ft d None s = (Inl TypeError, s)"
  by (simp add: wait_and_play_def)

lemma wait_and_play_completes:
  assumes "wait a" "now s < mlbdate r"
    and "\<And>g. sigint env = Some g \<Longrightarrow> now s + 10 * int (sleeps_needed (now s) (mlbdate r)) \<le> g"
  shows "wait_and_play env a t ft d (Some r) s =
     refresh_and_play env a t ft d
       (s\<lparr>now := now s + 10 * int (sleeps_needed (now s) (mlbdate r)),
          trace := trace s @
            [LogInfo (''Waiting for game to start. Local start time is '' @
                      convert_time_to_local env (mlbdate r)),
             Print ''Use Ctrl-c to quit .''] @
            polling_events 0 (sleeps_needed (now s) (mlbdate r))\<rparr>)"
proof -
  define s2 where "s2 = emit (Print ''Use Ctrl-c to quit .'')
     (emit (LogInfo (''Waiting for game to start. Local start time is '' @
                      convert_time_to_local env (mlbdate r))) s)"
  have now2: "now s2 = now s" by (simp add: s2_def)
  have "poll_loop env (mlbdate r) 0 s2 =
     (Inr (0 + sleeps_needed (now s2) (mlbdate r)),
      s2\<lparr>now := now s2 + 10 * int (sleeps_needed (now s2) (mlbdate r)),
        trace := trace s2 @ polling_events 0 (sleeps_needed (now s2) (mlbdate r))\<rparr>)"
    using assms(3) by (intro poll_loop_completes) (simp add: now2)
  then show ?thesis
    using assms(1,2)
    by (simp add: wait_and_play_def has_reached_time_def Let_def s2_def [symmetric] now2)
       (simp add: s2_def emit_def)
qed

lemma wait_and_play_interrupted:
  assumes "wait a" "now s < mlbdate r" "sigint env = Some g"
    and "g < now s + 10 * int (sleeps_needed (now s) (mlbdate r))"
  shows "wait_and_play env a t ft d (Some r) s =
     (Inl KeyboardInterrupt,
      s\<lparr>now := max (now s) g,
        trace := trace s @
          [LogInfo (''Waiting for game to start. Local start time is '' @
                    convert_time_to_local env (mlbdate r)),
           Print ''Use Ctrl-c to quit .''] @
          polling_events 0 (sleeps_before (now s) g) @ [Sleep 10]\<rparr>)"
proof -
  define s2 where "s2 = emit (Print ''Use Ctrl-c to quit .'')
     (emit (LogInfo (''Waiting for game to start. Local start time is '' @
                      convert_time_to_local env (mlbdate r))) s)"
  have now2: "now s2 = now s" by (simp add: s2_def)
  have "poll_loop env (mlbdate r) 0 s2 =
     (Inl KeyboardInterrupt,
      s2\<lparr>now := max (now s2) g,
        trace := trace s2 @ polling_events 0 (sleeps_before (now s2) g) @ [Sleep 10]\<rparr>)"
    using assms by (intro poll_loop_interrupted) (simp_all add: now2)
  then show ?thesis
    using assms(1,2)
    by (simp add: wait_and_play_def has_reached_time_def Let_def s2_def [symmetric] now2)
       (simp add: s2_def emit_def)
qed

subsection \<open>The runs in closed form\<close>

lemma run_standings:
  "truthy (standings a) = Some c \<Longrightarrow>
   run env a t0 = (Inr 0, team_warning env a @ [GetStandings c (date_of env a t0)])"
  by (simp add: run_def main_def Let_def)

lemma team_warning_no_team [simp]: "team_to_play_of a = None \<Longrightarrow> team_warning env a = []"
  by (simp add: team_warning_def)

lemma run_no_team:
  "truthy (standings a) = None \<Longrightarrow> team_to_play_of a = None \<Longrightarrow>
   run env a t0 = (Inr 0, [Retrieve (date_of env a t0) (days a) True])"
  by (simp add: run_def main_def Let_def)

lemma run_no_games:
  "truthy (standings a) = None \<Longrightarrow> team_to_play_of a = Some t \<Longrightarrow>
   retrieve_and_display_game_data env t0 (date_of env a t0) (days a) False = [] \<Longrightarrow>
   run env a t0 = (Inr 0, team_warning env a @ [Retrieve (date_of env a t0) (days a) False])"
  by (simp add: run_def main_def Let_def)

lemma run_game:
  "truthy (standings a) = None \<Longrightarrow> team_to_play_of a = Some t \<Longrightarrow>
   retrieve_and_display_game_data env t0 (date_of env a t0) (days a) False = gd # rest \<Longrightarrow>
   run env a t0 =
     (case wait_and_play env a t (feedtype_of env a) (date_of env a t0)
             (get_game_rec env gd t (game a))
             (emit (Retrieve (date_of env a t0) (days a) False)
                (apply_options env a \<lparr>now = t0, config = Map.empty, trace = []\<rparr>)) of
        (res, s) \<Rightarrow> (res, trace s))"
  by (simp add: run_def main_def Let_def)

lemma run_direct:
  assumes "truthy (standings a) = None" "team_to_play_of a = Some t"
    and "retrieve_and_display_game_data env t0 (date_of env a t0) (days a) False = gd # rest"
    and "\<not> wait a \<or> (\<exists>r. get_game_rec env gd t (game a) = Some r \<and> mlbdate r \<le> t0)"
  shows "run env a t0 =
     (Inr (play_code env a t t0 (get_game_rec env gd t (game a))),
      team_warning env a @
        [Retrieve (date_of env a t0) (days a) False,
         play_event env a t t0 (get_game_rec env gd t (game a))])"
  using assms(4)
  by (subst run_game [OF assms(1,2,3)], subst wait_and_play_direct)
     (auto simp: dispatch_def play_code_def play_event_def)

lemma run_type_error:
  assumes "truthy (standings a) = None" "team_to_play_of a = Some t"
    and "retrieve_and_display_game_data env t0 (date_of env a t0) (days a) False = gd # rest"
    and "wait a" "get_game_rec env gd t (game a) = None"
  shows "run env a t0 =
     (Inl TypeError, team_warning env a @ [Retrieve (date_of env a t0) (days a) False])"
  by (simp add: run_game [OF assms(1,2,3)] assms(4,5) wait_and_play_none)

lemma run_interrupted:
  assumes "truthy (standings a) = None" "team_to_play_of a = Some t"
    and "retrieve_and_display_game_data env t0 (date_of env a t0) (days a) False = gd # rest"
    and "wait a" "get_game_rec env gd t (game a) = Some r" "t0 < mlbdate r"
    and "sigint env = Some g" "g < t0 + 10 * int (sleeps_needed t0 (mlbdate r))"
  shows "run env a t0 =
     (Inl KeyboardInterrupt,
      team_warning env a @ [Retrieve (date_of env a t0) (days a) False] @
        waiting_events env (mlbdate r) @ polling_events 0 (sleeps_before t0 g) @ [Sleep 10])"
  by (subst run_game [OF assms(1,2,3)], simp only: assms(5),
      subst wait_and_play_interrupted [where g = g])
     (simp_all add: assms waiting_events_def)

lemma run_completes:
  assumes "truthy (standings a) = None" "team_to_play_of a = Some t"
    and "retrieve_and_display_game_data env t0 (date_of env a t0) (days a) False = gd # rest"
    and "wait a" "get_game_rec env gd t (game a) = Some r" "t0 < mlbdate r"
    and "\<And>g. sigint env = Some g \<Longrightarrow> t0 + 10 * int (sleeps_needed t0 (mlbdate r)) \<le> g"
  shows "run env a t0 =
     (case retrieve_and_display_game_data env (t0 + 10 * int (sleeps_needed t0 (mlbdate r)))
             (date_of env a t0) 1 False of
        [] \<Rightarrow> Inr 0
      | gd2 # _ \<Rightarrow> Inr (play_code env a t t0 (get_game_rec env gd2 t (game a))),
      team_warning env a @ [Retrieve (date_of env a t0) (days a) False] @
        waiting_events env (mlbdate r) @ polling_events 0 (sleeps_needed t0 (mlbdate r)) @
        [LogInfo ''Game time. Refreshing game data after wait...'',
         Retrieve (date_of env a t0) 1 False,
         case retrieve_and_display_game_data env (t0 + 10 * int (sleeps_needed t0 (mlbdate r)))
                (date_of env a t0) 1 False of
           [] \<Rightarrow> LogError ''Unexpected error: no game data found after refresh on wait''
         | gd2 # _ \<Rightarrow> play_event env a t t0 (get_game_rec env gd2 t (game a))])"
  by (subst run_game [OF assms(1,2,3)], simp only: assms(5),
      subst wait_and_play_completes)
     (simp_all add: assms refresh_and_play_def dispatch_def Let_def waiting_events_def
        play_code_def play_event_def split: list.splits)

text \<open>Every run is one of the seven above.\<close>

lemma run_cases [case_names standings no_team no_games direct type_error completes interrupted]:
  fixes env :: "('gd, 'x game_rec_scheme) env"
  obtains
    c where "truthy (standings a) = Some c"
  | "truthy (standings a) = None" "team_to_play_of a = None"
  | t where "truthy (standings a) = None" "team_to_play_of a = Some t"
      "retrieve_and_display_game_data env t0 (date_of env a t0) (days a) False = []"
  | t gd rest where "truthy (standings a) = None" "team_to_play_of a = Some t"
      "retrieve_and_display_game_data env t0 (date_of env a t0) (days a) False = gd # rest"
      "\<not> wait a \<or> (\<exists>r. get_game_rec env gd t (game a) = Some r \<and> mlbdate r \<le> t0)"
  | t gd rest where "truthy (standings a) = None" "team_to_play_of a = Some t"
      "retrieve_and_display_game_data env t0 (date_of env a t0) (days a) False = gd # rest"
      "wait a" "get_game_rec env gd t (game a) = None"
  | t gd rest r where "truthy (standings a) = None" "team_to_play_of a = Some t"
      "retrieve_and_display_game_data env t0 (date_of env a t0) (days a) False = gd # rest"
      "wait a" "get_game_rec env gd t (game a) = Some r" "t0 < mlbdate r"
      "\<And>g. sigint env = Some g \<Longrightarrow> t0 + 10 * int (sleeps_needed t0 (mlbdate r)) \<le> g"
  | t gd rest r g where "truthy (standings a) = None" "team_to_play_of a = Some t"
      "retrieve_and_display_game_data env t0 (date_of env a t0) (days a) False = gd # rest"
      "wait a" "get_game_rec env gd t (game a) = Some r" "t0 < mlbdate r"
      "sigint env = Some g" "g < t0 + 10 * int (sleeps_needed t0 (mlbdate r))"
proof (cases "truthy (standings a)")
  case (Some c)
  then show ?thesis by (rule that(1))
next
  case std: None
  show ?thesis
  proof (cases "team_to_play_of a")
    case None
    with std show ?thesis by (rule that(2))
  next
    case tm: (Some t)
    show ?thesis
    proof (cases "retrieve_and_display_game_data env t0 (date_of env a t0) (days a) False")
      case Nil
      with std tm show ?thesis by (rule that(3))
    next
      case gds: (Cons gd rest)
      show ?thesis
      proof (cases "wait a")
        case False
        then show ?thesis using that(4) [OF std tm gds] by simp
      next
        case w: True
        show ?thesis
        proof (cases "get_game_rec env gd t (game a)")
          case None
          with std tm gds w show ?thesis by (rule that(5))
        next
          case gr: (Some r)
          show ?thesis
          proof (cases "t0 < mlbdate r")
            case False
            then show ?thesis using that(4) [OF std tm gds] gr by simp
          next
            case lt: True
            show ?thesis
            proof (cases "\<exists>g. sigint env = Some g \<and>
                            g < t0 + 10 * int (sleeps_needed t0 (mlbdate r))")
              case True
              then obtain g where "sigint env = Some g"
                  "g < t0 + 10 * int (sleeps_needed t0 (mlbdate r))" by blast
              with std tm gds w gr lt show ?thesis by (rule that(7))
            next
              case False
              then have "\<And>g. sigint env = Some g \<Longrightarrow>
                  t0 + 10 * int (sleeps_needed t0 (mlbdate r)) \<le> g"
                by (simp add: not_less)
              with std tm gds w gr lt show ?thesis by (rule that(6))
            qed
          qed
        qed
      qed
    qed
  qed
qed

subsection \<open>Which events a part of the trace holds\<close>

lemma team_warning_filters [simp]:
  "filter is_Retrieve (team_warning env a) = []"
  "filter is_PlayStream (team_warning env a) = []"
  "filter is_Sleep (team_warning env a) = []"
  "filter is_Print (team_warning env a) = []"
  "filter (\<lambda>e. \<not> is_LogWarn e) (team_warning env a) = []"
  by (simp_all add: team_warning_def split: option.splits)

lemma waiting_events_filters [simp]:
  "filter is_Retrieve (waiting_events env t) = []"
  "filter is_PlayStream (waiting_events env t) = []"
  "filter is_Sleep (waiting_events env t) = []"
  "filter is_LogWarn (waiting_events env t) = []"
  by (simp_all add: waiting_events_def)

lemma iteration_events_filters [simp]:
  "filter is_Retrieve (iteration_events i) = []"
  "filter is_PlayStream (iteration_events i) = []"
  "filter is_LogWarn (iteration_events i) = []"
  "length (filter is_Sleep (iteration_events i)) = 1"
  "length (filter is_Print (iteration_events i)) = (if i mod 6 = 0 then 1 else 0)"
  by (simp_all add: iteration_events_def)

lemma polling_events_filters [simp]:
  "filter is_Retrieve (polling_events c n) = []"
  "filter is_PlayStream (polling_events c n) = []"
  "filter is_LogWarn (polling_events c n) = []"
  "length (filter is_Sleep (polling_events c n)) = n"
  by (induction n, simp_all add: polling_events_snoc)+

lemma polling_events_dots: "length (filter is_Print (polling_events 0 n)) = n div 6"
  by (induction n) (simp_all add: polling_events_snoc div_Suc)

lemma play_event_simps [simp]:
  "is_PlayStream (play_event env a t t0 gr)" "\<not> is_Retrieve (play_event env a t t0 gr)"
  "\<not> is_Sleep (play_event env a t t0 gr)" "\<not> is_LogWarn (play_event env a t t0 gr)"
  "\<not> is_Print (play_event env a t t0 gr)"
  by (simp_all add: play_event_def)


subsection \<open>Independence of the list of known team codes\<close>

lemma TEAM_CODES_update_simps [simp]:
  "date_of (env\<lparr>TEAM_CODES := codes\<rparr>) a t = date_of env a t"
  "feedtype_of (env\<lparr>TEAM_CODES := codes\<rparr>) a = feedtype_of env a"
  "play_code (env\<lparr>TEAM_CODES := codes\<rparr>) a tm t gr = play_code env a tm t gr"
  "play_event (env\<lparr>TEAM_CODES := codes\<rparr>) a tm t gr = play_event env a tm t gr"
  "waiting_events (env\<lparr>TEAM_CODES := codes\<rparr>) st = waiting_events env st"
  by (simp_all add: date_of_def feedtype_of_def play_code_def play_event_def waiting_events_def
        split: option.splits)

lemma run_TEAM_CODES:
  fixes env :: "('gd, 'x game_rec_scheme) env"
  shows "\<exists>evs. run env a t0 = (fst (run env a t0), team_warning env a @ evs)
     \<and> run (env\<lparr>TEAM_CODES := codes\<rparr>) a t0 =
         (fst (run env a t0), team_warning (env\<lparr>TEAM_CODES := codes\<rparr>) a @ evs)
     \<and> filter is_LogWarn evs = []"
proof (cases rule: run_cases [where a = a and env = env and ?t0.0 = t0])
  case (standings c)
  then show ?thesis by (simp add: run_standings)
next
  case no_team
  then show ?thesis by (simp add: run_no_team)
next
  case (no_games t)
  then show ?thesis
    using run_no_games [of a t env t0] run_no_games [of a t "env\<lparr>TEAM_CODES := codes\<rparr>" t0]
    by simp
next
  case (direct t gd rest)
  then show ?thesis
    using run_direct [of a t env t0 gd rest]
      run_direct [of a t "env\<lparr>TEAM_CODES := codes\<rparr>" t0 gd rest]
    by simp
next
  case (type_error t gd rest)
  then show ?thesis
    using run_type_error [of a t env t0 gd rest]
      run_type_error [of a t "env\<lparr>TEAM_CODES := codes\<rparr>" t0 gd rest]
    by simp
next
  case (completes t gd rest r)
  then show ?thesis
    using run_completes [of a t env t0 gd rest r]
      run_completes [of a t "env\<lparr>TEAM_CODES := codes\<rparr>" t0 gd rest r]
    by (simp split: list.splits)
next
  case (interrupted t gd rest r g)
  then show ?thesis
    using run_interrupted [of a t env t0 gd rest r g]
      run_interrupted [of a t "env\<lparr>TEAM_CODES := codes\<rparr>" t0 gd rest r g]
    by simp
qed

subsection \<open>Lower case\<close>

lemma lower_char_not_capital: "\<not> is_capital (lower_char c)"
  by (auto simp: lower_char_def is_capital_def)

lemma lower_char_fixed: "\<not> is_capital c \<Longrightarrow> lower_char c = c"
  by (simp add: lower_char_def)

lemma lower_char_idem: "lower_char (lower_char c) = lower_char c"
  by (rule lower_char_fixed) (rule lower_char_not_capital)

lemma lower_idem: "lower (lower s) = lower s"
  by (simp add: lower_def lower_char_idem)

lemma lower_length: "length (lower s) = length s"
  by (simp add: lower_def)

subsection \<open>The concrete catalogue, evaluated\<close>

lemma lower_BOS: "lower ''BOS'' = ''bos''"
  by code_simp

lemma lower_TOR: "lower ''TOR'' = ''tor''"
  by code_simp

lemma demo_team [simp]: "team_to_play_of demo_args = Some ''bos''"
  by (simp add: team_to_play_of_def truthy_def demo_args_def lower_BOS)

lemma demo_args_simps [simp]:
  "standings demo_args = None" "wait demo_args = False" "days demo_args = 1"
  "game demo_args = ''1''" "feed demo_args = None" "fetch demo_args = False"
  "from_start demo_args = False" "inning demo_args = None" "team demo_args = Some ''BOS''"
  by (simp_all add: demo_args_def)

lemma demo_date [simp]: "date_of (demo_env rf sg) demo_args t = ''2018-06-01''"
  by (simp add: date_of_def demo_args_def demo_env_def)

lemma demo_env_simps [simp]:
  "TEAM_CODES (demo_env rf sg) = [''bos'', ''nyy'', ''tor'']"
  "sigint (demo_env rf sg) = sg"
  "get_game_rec (demo_env rf sg) = select"
  "convert_time_to_local (demo_env rf sg) = (\<lambda>t. ''19:05'')"
  "retrieve_and_display_game_data (demo_env rf sg) t d n b =
     (if t < 25 then take (nat n) [day1, day2] else rf)"
  "play_stream (demo_env rf sg) r tm f d b1 b2 i = (case r of None \<Rightarrow> 1 | Some _ \<Rightarrow> 0)"
  by (simp_all add: demo_env_def)

lemma select_day1: "select day1 ''bos'' ''1'' = Some (hd day1)"
  by (simp add: select_def day1_def)

lemma demo_truthy [simp]: "truthy (Some ''division'') = Some ''division''" "truthy None = None"
  by (simp_all add: truthy_def)

lemma demo_team_warning [simp]:
  "team_to_play_of a = Some ''bos'' \<Longrightarrow> team_warning (demo_env rf sg) a = []"
  by (simp add: team_warning_def)

lemma demo_feedtype [simp]: "feed a = None \<Longrightarrow> feedtype_of env a = None"
  by (simp add: feedtype_of_def truthy_def)

lemma demo_team_upd [simp]:
  "team a = Some ''BOS'' \<Longrightarrow> team_to_play_of a = Some ''bos''"
  by (simp add: team_to_play_of_def truthy_def lower_BOS)

lemma demo_date_upd [simp]:
  "\<not> yesterday a \<Longrightarrow> \<not> tomorrow a \<Longrightarrow> date a = None \<Longrightarrow>
   date_of (demo_env rf sg) a t = ''2018-06-01''"
  by (simp add: date_of_def demo_env_def)

lemma demo_args_more [simp]:
  "\<not> yesterday demo_args" "\<not> tomorrow demo_args" "date demo_args = None"
  by (simp_all add: demo_args_def)

lemma select_day1_bos [simp]:
  "select day1 ''bos'' ''1'' =
     Some \<lparr>mlbdate = 25, home_abbrev = ''nyy'', away_abbrev = ''bos'', gameNumber = ''1''\<rparr>"
  by (simp add: select_def day1_def)

lemma sleeps_needed_demo [simp]: "sleeps_needed 0 25 = 3"
  by (simp add: sleeps_needed_def)

lemma lower_AL: "lower ''AL'' = ''al''"
  by code_simp

lemma select_day1_tor [simp]: "select day1 ''tor'' ''1'' = None"
  by (simp add: select_def day1_def)

lemma select_span_tor [simp]:
  "select (day1 @ day2) ''tor'' ''1'' =
     Some \<lparr>mlbdate = 86425, home_abbrev = ''tor'', away_abbrev = ''bos'', gameNumber = ''1''\<rparr>"
  by (simp add: select_def day1_def day2_def)

lemma demo_team_tor [simp]: "team a = Some ''TOR'' \<Longrightarrow> team_to_play_of a = Some ''tor''"
  by (simp add: team_to_play_of_def truthy_def lower_TOR)

lemma demo_team_warning_tor [simp]:
  "team_to_play_of a = Some ''tor'' \<Longrightarrow> team_warning (demo_env rf sg) a = []"
  by (simp add: team_warning_def)

lemma sleeps_needed_demo2 [simp]: "sleeps_needed 0 65 = 7"
  by (simp add: sleeps_needed_def)

lemma lower_E_acute: "lower [char_of (201 :: nat)] = [char_of (233 :: nat)]"
  by code_simp

lemma sleeps_before_demo [simp]: "sleeps_before 0 17 = 1"
  by (simp add: sleeps_before_def)

lemma polling_events_1 [simp]: "polling_events 0 (Suc 0) = [Sleep 10]"
  by (simp add: polling_events_def iteration_events_def)

section \<open>The properties of the specification\<close>

text \<open>
  In the statements below, a run is \<open>run env a t0\<close>. The usual hypotheses say that the run
  gets as far as line 160: no standings were asked for, a team was given (\<open>t\<close> is its lowered
  code), and the first answer of the catalogue is \<open>gd # rest\<close>. The hypothesis on
  \<open>sigint\<close> says whether the interrupt arrives before the polling loop is over, that is,
  before the time \<open>t0 + 10 * sleeps_needed t0 start\<close>.
\<close>

subsection \<open>C1: waiting until the scheduled start\<close>

text \<open>
  C1. In a run with \<open>--wait\<close> whose game starts strictly after the time \<open>t0\<close> of the run,
  and without an interrupt during the wait, the polling loop sleeps \<open>n\<close> times, where \<open>n\<close>
  is at least 1. At the time of each of these sleeps (\<open>t0 + 10 * k\<close> for \<open>k < n\<close>) the clock
  has not reached the start, and after the last one (\<open>t0 + 10 * n\<close>) it has: the loop ends
  at the first check that finds the start reached. Then the run goes on: it logs the
  refresh, and it ends with an exit code, not with an exception. No sleep happens outside
  the loop. The number \<open>n\<close> is \<open>(start - t0) / 10\<close> rounded up, for every start: nothing
  but the start (or the interrupt, excluded here) bounds the loop.
\<close>

theorem wait_ends_at_start:
  assumes "truthy (standings a) = None" "team_to_play_of a = Some t"
    and "retrieve_and_display_game_data env t0 (date_of env a t0) (days a) False = gd # rest"
    and "wait a" "get_game_rec env gd t (game a) = Some r" "t0 < mlbdate r"
    and "\<And>g. sigint env = Some g \<Longrightarrow> t0 + 10 * int (sleeps_needed t0 (mlbdate r)) \<le> g"
  shows "length (filter is_Sleep (snd (run env a t0))) = sleeps_needed t0 (mlbdate r)
     \<and> 0 < sleeps_needed t0 (mlbdate r)
     \<and> (\<forall>k < sleeps_needed t0 (mlbdate r). t0 + 10 * int k < mlbdate r)
     \<and> mlbdate r \<le> t0 + 10 * int (sleeps_needed t0 (mlbdate r))
     \<and> (\<exists>code. fst (run env a t0) = Inr code)
     \<and> (\<exists>evs1 evs2. snd (run env a t0) =
           evs1 @ polling_events 0 (sleeps_needed t0 (mlbdate r)) @
           LogInfo ''Game time. Refreshing game data after wait...'' # evs2
           \<and> filter is_Sleep evs1 = [] \<and> filter is_Sleep evs2 = [])"
proof -
  let ?n = "sleeps_needed t0 (mlbdate r)"
  let ?gds = "retrieve_and_display_game_data env (t0 + 10 * int ?n) (date_of env a t0) 1 False"
  note run = run_completes [OF assms]
  have 1: "length (filter is_Sleep (snd (run env a t0))) = ?n"
    by (simp add: run split: list.splits)
  have 2: "0 < ?n" using assms(6) by (rule sleeps_needed_pos)
  have 3: "\<forall>k < ?n. t0 + 10 * int k < mlbdate r" by (simp add: sleeps_needed_least)
  have 4: "mlbdate r \<le> t0 + 10 * int ?n" by (rule sleeps_needed_reach)
  have 5: "\<exists>code. fst (run env a t0) = Inr code" by (simp add: run split: list.splits)
  have 6: "\<exists>evs1 evs2. snd (run env a t0) =
      evs1 @ polling_events 0 ?n @ LogInfo ''Game time. Refreshing game data after wait...'' # evs2
      \<and> filter is_Sleep evs1 = [] \<and> filter is_Sleep evs2 = []"
  proof (intro exI conjI)
    show "snd (run env a t0) =
      (team_warning env a @ [Retrieve (date_of env a t0) (days a) False] @
         waiting_events env (mlbdate r)) @ polling_events 0 ?n @
      LogInfo ''Game time. Refreshing game data after wait...'' #
      [Retrieve (date_of env a t0) 1 False,
       case ?gds of
         [] \<Rightarrow> LogError ''Unexpected error: no game data found after refresh on wait''
       | gd2 # _ \<Rightarrow> play_event env a t t0 (get_game_rec env gd2 t (game a))]"
      by (simp add: run)
  qed (simp_all split: list.splits)
  from 1 2 3 4 5 6 show ?thesis by blast
qed

theorem wait_ends_at_start_witness:
  "(0 :: int) < 25
   \<and> sigint (demo_env [day1] None) = None
   \<and> length (filter is_Sleep (snd (run (demo_env [day1] None) (demo_args\<lparr>wait := True\<rparr>) 0))) = 3
   \<and> (0 :: int) + 10 * int 2 < 25 \<and> (25 :: int) \<le> 0 + 10 * int 3
   \<and> (\<exists>code. fst (run (demo_env [day1] None) (demo_args\<lparr>wait := True\<rparr>) 0) = Inr code)"
  using wait_ends_at_start [of "demo_args\<lparr>wait := True\<rparr>" "''bos''"
      "demo_env [day1] None" 0 day1 "[]"
      "\<lparr>mlbdate = 25, home_abbrev = ''nyy'', away_abbrev = ''bos'', gameNumber = ''1''\<rparr>"]
  by simp

subsection \<open>C2: the refresh after the wait\<close>

text \<open>
  C2, as amended. When the polling loop was entered and ran to its end (\<open>--wait\<close> was
  given, the start of the selected game was not reached at first, and no interrupt came),
  the catalogue is fetched a second time, for the same date, for one day and without
  display; when this answer is not empty, the selector is run again on its first entry with
  the same team and game number, and the record it yields is the one the player gets, right
  after the second fetch. When no wait happens (\<open>--wait\<close> was not given, or the start was
  already reached), there is no second fetch, and the player gets the record selected at
  first.
\<close>

theorem refresh_only_after_wait:
  fixes env :: "('gd, 'x game_rec_scheme) env"
  assumes "truthy (standings a) = None" "team_to_play_of a = Some t"
    and "retrieve_and_display_game_data env t0 (date_of env a t0) (days a) False = gd # rest"
  shows "(wait a \<and> get_game_rec env gd t (game a) = Some r \<and> t0 < mlbdate r
          \<and> (\<forall>g. sigint env = Some g \<longrightarrow> t0 + 10 * int (sleeps_needed t0 (mlbdate r)) \<le> g) \<longrightarrow>
            filter is_Retrieve (snd (run env a t0)) =
              [Retrieve (date_of env a t0) (days a) False, Retrieve (date_of env a t0) 1 False]
            \<and> (\<forall>gd2 rest2.
                  retrieve_and_display_game_data env
                    (t0 + 10 * int (sleeps_needed t0 (mlbdate r))) (date_of env a t0) 1 False
                    = gd2 # rest2 \<longrightarrow>
                  fst (run env a t0) =
                    Inr (play_code env a t t0 (get_game_rec env gd2 t (game a)))
                  \<and> (\<exists>evs. snd (run env a t0) =
                        evs @ [Retrieve (date_of env a t0) 1 False,
                               play_event env a t t0 (get_game_rec env gd2 t (game a))]
                        \<and> filter is_PlayStream evs = [])))
     \<and> (\<not> wait a \<or> (\<exists>r. get_game_rec env gd t (game a) = Some r \<and> mlbdate r \<le> t0) \<longrightarrow>
            filter is_Retrieve (snd (run env a t0)) = [Retrieve (date_of env a t0) (days a) False]
            \<and> filter is_PlayStream (snd (run env a t0)) =
                [play_event env a t t0 (get_game_rec env gd t (game a))])"
proof (intro conjI impI allI)
  assume h: "wait a \<and> get_game_rec env gd t (game a) = Some r \<and> t0 < mlbdate r
          \<and> (\<forall>g. sigint env = Some g \<longrightarrow> t0 + 10 * int (sleeps_needed t0 (mlbdate r)) \<le> g)"
  then have run: "run env a t0 =
     (case retrieve_and_display_game_data env (t0 + 10 * int (sleeps_needed t0 (mlbdate r)))
             (date_of env a t0) 1 False of
        [] \<Rightarrow> Inr 0
      | gd2 # _ \<Rightarrow> Inr (play_code env a t t0 (get_game_rec env gd2 t (game a))),
      team_warning env a @ [Retrieve (date_of env a t0) (days a) False] @
        waiting_events env (mlbdate r) @ polling_events 0 (sleeps_needed t0 (mlbdate r)) @
        [LogInfo ''Game time. Refreshing game data after wait...'',
         Retrieve (date_of env a t0) 1 False,
         case retrieve_and_display_game_data env (t0 + 10 * int (sleeps_needed t0 (mlbdate r)))
                (date_of env a t0) 1 False of
           [] \<Rightarrow> LogError ''Unexpected error: no game data found after refresh on wait''
         | gd2 # _ \<Rightarrow> play_event env a t t0 (get_game_rec env gd2 t (game a))])"
    using run_completes [of a t env t0 gd rest r] assms by simp
  show "filter is_Retrieve (snd (run env a t0)) =
      [Retrieve (date_of env a t0) (days a) False, Retrieve (date_of env a t0) 1 False]"
    by (simp add: run split: list.splits)
  fix gd2 rest2
  assume r2: "retrieve_and_display_game_data env
      (t0 + 10 * int (sleeps_needed t0 (mlbdate r))) (date_of env a t0) 1 False = gd2 # rest2"
  show "fst (run env a t0) = Inr (play_code env a t t0 (get_game_rec env gd2 t (game a)))"
    by (simp add: run r2)
  show "\<exists>evs. snd (run env a t0) =
      evs @ [Retrieve (date_of env a t0) 1 False,
             play_event env a t t0 (get_game_rec env gd2 t (game a))]
      \<and> filter is_PlayStream evs = []"
  proof (intro exI conjI)
    show "snd (run env a t0) =
      (team_warning env a @ [Retrieve (date_of env a t0) (days a) False] @
        waiting_events env (mlbdate r) @ polling_events 0 (sleeps_needed t0 (mlbdate r)) @
        [LogInfo ''Game time. Refreshing game data after wait...'']) @
      [Retrieve (date_of env a t0) 1 False,
       play_event env a t t0 (get_game_rec env gd2 t (game a))]"
      by (simp add: run r2)
  qed simp
next
  assume h: "\<not> wait a \<or> (\<exists>r. get_game_rec env gd t (game a) = Some r \<and> mlbdate r \<le> t0)"
  note run = run_direct [OF assms h]
  show "filter is_Retrieve (snd (run env a t0)) = [Retrieve (date_of env a t0) (days a) False]"
    by (simp add: run)
  show "filter is_PlayStream (snd (run env a t0)) =
      [play_event env a t t0 (get_game_rec env gd t (game a))]"
    by (simp add: run)
qed

theorem refresh_only_after_wait_witness:
  "filter is_Retrieve (snd (run (demo_env [day1] None) (demo_args\<lparr>wait := True\<rparr>) 0)) =
     [Retrieve ''2018-06-01'' 1 False, Retrieve ''2018-06-01'' 1 False]
   \<and> fst (run (demo_env [day1] None) (demo_args\<lparr>wait := True\<rparr>) 0) = Inr 0
   \<and> filter is_Retrieve (snd (run (demo_env [day1] None) (demo_args\<lparr>days := 2\<rparr>) 0)) =
     [Retrieve ''2018-06-01'' 2 False]"
  using refresh_only_after_wait [where env = "demo_env [day1] None"
      and a = "demo_args\<lparr>wait := True\<rparr>" and ?t0.0 = 0 and t = "''bos''" and gd = day1
      and rest = "[]"
      and r = "\<lparr>mlbdate = 25, home_abbrev = ''nyy'', away_abbrev = ''bos'', gameNumber = ''1''\<rparr>"]
    refresh_only_after_wait [where env = "demo_env [day1] None"
      and a = "demo_args\<lparr>days := 2\<rparr>" and ?t0.0 = 0 and t = "''bos''" and gd = day1
      and rest = "[day2]"]
  by (simp add: play_code_def)

text \<open>
  C2, as stated, asks for the second fetch also when no wait has happened. The run
  \<open>mlbv --team BOS --days 2\<close> at time 0 goes on without waiting and calls the player
  after a single fetch, which is the one for two days.
\<close>

theorem refresh_without_wait_counterexample:
  "run (demo_env [day1] None) (demo_args\<lparr>days := 2\<rparr>) 0 =
     (Inr 0,
      [Retrieve ''2018-06-01'' 2 False,
       PlayStream
         (Some \<lparr>mlbdate = 25, home_abbrev = ''nyy'', away_abbrev = ''bos'', gameNumber = ''1''\<rparr>)
         ''bos'' None ''2018-06-01'' False False None])"
  using run_direct [of "demo_args\<lparr>days := 2\<rparr>" "''bos''" "demo_env [day1] None" 0 day1 "[day2]"]
  by (simp add: play_code_def play_event_def)

subsection \<open>C3: nothing to play\<close>

text \<open>
  C3. When no team was given (\<open>args.team\<close> is \<open>None\<close> or empty), or when the first answer
  of the catalogue is empty, the run returns 0 and never calls the player. When the polling
  loop ran to its end and the answer to the second fetch is empty, the run returns 0, never
  calls the player, and its last effect is the message logged by \<open>LOG.error\<close>.
\<close>

theorem nothing_to_play_returns_zero:
  fixes env :: "('gd, 'x game_rec_scheme) env"
  shows "(truthy (team a) = None \<longrightarrow>
            fst (run env a t0) = Inr 0 \<and> filter is_PlayStream (snd (run env a t0)) = [])
     \<and> (retrieve_and_display_game_data env t0 (date_of env a t0) (days a)
              (team_to_play_of a = None) = [] \<longrightarrow>
            fst (run env a t0) = Inr 0 \<and> filter is_PlayStream (snd (run env a t0)) = [])
     \<and> (truthy (standings a) = None \<and> team_to_play_of a = Some t
          \<and> retrieve_and_display_game_data env t0 (date_of env a t0) (days a) False = gd # rest
          \<and> wait a \<and> get_game_rec env gd t (game a) = Some r \<and> t0 < mlbdate r
          \<and> (\<forall>g. sigint env = Some g \<longrightarrow> t0 + 10 * int (sleeps_needed t0 (mlbdate r)) \<le> g)
          \<and> retrieve_and_display_game_data env (t0 + 10 * int (sleeps_needed t0 (mlbdate r)))
                (date_of env a t0) 1 False = [] \<longrightarrow>
            fst (run env a t0) = Inr 0 \<and> filter is_PlayStream (snd (run env a t0)) = []
            \<and> last (snd (run env a t0)) =
                LogError ''Unexpected error: no game data found after refresh on wait'')"
proof (intro conjI impI)
  assume nt: "truthy (team a) = None"
  then have tm: "team_to_play_of a = None" by (simp add: team_to_play_of_def)
  show "fst (run env a t0) = Inr 0"
    by (cases "truthy (standings a)") (simp_all add: run_standings run_no_team tm)
  show "filter is_PlayStream (snd (run env a t0)) = []"
    by (cases "truthy (standings a)") (simp_all add: run_standings run_no_team tm)
next
  assume e: "retrieve_and_display_game_data env t0 (date_of env a t0) (days a)
              (team_to_play_of a = None) = []"
  have "run env a t0 = (Inr 0, snd (run env a t0)) \<and> filter is_PlayStream (snd (run env a t0)) = []"
  proof (cases "truthy (standings a)")
    case (Some c)
    then show ?thesis by (simp add: run_standings)
  next
    case std: None
    show ?thesis
    proof (cases "team_to_play_of a")
      case None
      with std show ?thesis by (simp add: run_no_team)
    next
      case (Some t')
      with std e show ?thesis using run_no_games [of a t' env t0] by simp
    qed
  qed
  then show "fst (run env a t0) = Inr 0" "filter is_PlayStream (snd (run env a t0)) = []"
    by (metis fst_conv, simp)
next
  assume h: "truthy (standings a) = None \<and> team_to_play_of a = Some t
          \<and> retrieve_and_display_game_data env t0 (date_of env a t0) (days a) False = gd # rest
          \<and> wait a \<and> get_game_rec env gd t (game a) = Some r \<and> t0 < mlbdate r
          \<and> (\<forall>g. sigint env = Some g \<longrightarrow> t0 + 10 * int (sleeps_needed t0 (mlbdate r)) \<le> g)
          \<and> retrieve_and_display_game_data env (t0 + 10 * int (sleeps_needed t0 (mlbdate r)))
                (date_of env a t0) 1 False = []"
  then have run: "run env a t0 =
     (Inr 0,
      team_warning env a @ [Retrieve (date_of env a t0) (days a) False] @
        waiting_events env (mlbdate r) @ polling_events 0 (sleeps_needed t0 (mlbdate r)) @
        [LogInfo ''Game time. Refreshing game data after wait...'',
         Retrieve (date_of env a t0) 1 False,
         LogError ''Unexpected error: no game data found after refresh on wait''])"
    using run_completes [of a t env t0 gd rest r] by simp
  show "fst (run env a t0) = Inr 0" by (simp add: run)
  show "filter is_PlayStream (snd (run env a t0)) = []" by (simp add: run)
  show "last (snd (run env a t0)) =
      LogError ''Unexpected error: no game data found after refresh on wait''"
    by (simp add: run)
qed

theorem nothing_to_play_returns_zero_witness:
  "fst (run (demo_env [] None) (demo_args\<lparr>team := None\<rparr>) 0) = Inr 0
   \<and> filter is_PlayStream (snd (run (demo_env [] None) (demo_args\<lparr>team := None\<rparr>) 0)) = []
   \<and> fst (run (demo_env [] None) demo_args 30) = Inr 0
   \<and> filter is_PlayStream (snd (run (demo_env [] None) demo_args 30)) = []
   \<and> fst (run (demo_env [] None) (demo_args\<lparr>wait := True\<rparr>) 0) = Inr 0
   \<and> filter is_PlayStream (snd (run (demo_env [] None) (demo_args\<lparr>wait := True\<rparr>) 0)) = []
   \<and> last (snd (run (demo_env [] None) (demo_args\<lparr>wait := True\<rparr>) 0)) =
       LogError ''Unexpected error: no game data found after refresh on wait''"
  using nothing_to_play_returns_zero [where env = "demo_env [] None"
      and a = "demo_args\<lparr>team := None\<rparr>" and ?t0.0 = 0]
    nothing_to_play_returns_zero [where env = "demo_env [] None" and a = demo_args
      and ?t0.0 = 30]
    nothing_to_play_returns_zero [where env = "demo_env [] None"
      and a = "demo_args\<lparr>wait := True\<rparr>" and ?t0.0 = 0 and t = "''bos''" and gd = day1
      and rest = "[]"
      and r = "\<lparr>mlbdate = 25, home_abbrev = ''nyy'', away_abbrev = ''bos'', gameNumber = ''1''\<rparr>"]
  by simp

subsection \<open>C4: no wait, no polling\<close>

text \<open>
  C4. When \<open>--wait\<close> was not given, whatever the selected record is, or when it was given
  and the clock has already reached the start of the selected game, the run does not sleep
  and prints nothing: after the catalogue fetch it calls the player at once with the
  selected record, and the exit code of the player is the result.
\<close>

theorem no_polling_without_wait:
  assumes "truthy (standings a) = None" "team_to_play_of a = Some t"
    and "retrieve_and_display_game_data env t0 (date_of env a t0) (days a) False = gd # rest"
    and "\<not> wait a \<or> (\<exists>r. get_game_rec env gd t (game a) = Some r \<and> mlbdate r \<le> t0)"
  shows "run env a t0 =
       (Inr (play_code env a t t0 (get_game_rec env gd t (game a))),
        team_warning env a @
          [Retrieve (date_of env a t0) (days a) False,
           play_event env a t t0 (get_game_rec env gd t (game a))])
     \<and> filter is_Sleep (snd (run env a t0)) = []
     \<and> filter is_Print (snd (run env a t0)) = []"
  by (simp add: run_direct [OF assms])

theorem no_polling_without_wait_witness:
  "\<not> wait demo_args
   \<and> run (demo_env [] None) demo_args 0 =
       (Inr 0,
        [Retrieve ''2018-06-01'' 1 False,
         PlayStream
           (Some \<lparr>mlbdate = 25, home_abbrev = ''nyy'', away_abbrev = ''bos'', gameNumber = ''1''\<rparr>)
           ''bos'' None ''2018-06-01'' False False None])
   \<and> filter is_Sleep (snd (run (demo_env [] None) demo_args 0)) = []"
  using no_polling_without_wait [of demo_args "''bos''" "demo_env [] None" 0 day1 "[]"]
  by (simp add: play_code_def play_event_def)

subsection \<open>C5: the interrupt during the wait\<close>

text \<open>
  C5, as amended. When the interrupt arrives before the polling loop is over,
  \<open>time.sleep\<close> raises \<open>KeyboardInterrupt\<close>, and \<open>main\<close> has no handler for it: the run
  ends with that exception and not with an exit code. The interrupted sleep is the last
  effect of the run: the catalogue is not fetched again and the player is never called.
\<close>

theorem interrupt_stops_without_playback:
  assumes "truthy (standings a) = None" "team_to_play_of a = Some t"
    and "retrieve_and_display_game_data env t0 (date_of env a t0) (days a) False = gd # rest"
    and "wait a" "get_game_rec env gd t (game a) = Some r" "t0 < mlbdate r"
    and "sigint env = Some g" "g < t0 + 10 * int (sleeps_needed t0 (mlbdate r))"
  shows "fst (run env a t0) = Inl KeyboardInterrupt
     \<and> filter is_PlayStream (snd (run env a t0)) = []
     \<and> filter is_Retrieve (snd (run env a t0)) = [Retrieve (date_of env a t0) (days a) False]
     \<and> last (snd (run env a t0)) = Sleep 10"
  by (simp add: run_interrupted [OF assms])

theorem interrupt_stops_without_playback_witness:
  "sigint (demo_env [day1] (Some 17)) = Some 17
   \<and> (17 :: int) < 0 + 10 * int (sleeps_needed 0 25)
   \<and> fst (run (demo_env [day1] (Some 17)) (demo_args\<lparr>wait := True\<rparr>) 0) = Inl KeyboardInterrupt
   \<and> filter is_PlayStream (snd (run (demo_env [day1] (Some 17)) (demo_args\<lparr>wait := True\<rparr>) 0)) = []"
  using interrupt_stops_without_playback [of "demo_args\<lparr>wait := True\<rparr>" "''bos''"
      "demo_env [day1] (Some 17)" 0 day1 "[]"
      "\<lparr>mlbdate = 25, home_abbrev = ''nyy'', away_abbrev = ''bos'', gameNumber = ''1''\<rparr>" 17]
  by simp

text \<open>
  C5, as stated, has the run stop cleanly, as a normal way to end. With \<open>--wait\<close>, a game
  that starts at time 25 and the interrupt at time 17, the run ends in the second sleep
  with the exception \<open>KeyboardInterrupt\<close>: it has no exit code.
\<close>

theorem interrupt_is_uncaught_counterexample:
  "run (demo_env [day1] (Some 17)) (demo_args\<lparr>wait := True\<rparr>) 0 =
     (Inl KeyboardInterrupt,
      [Retrieve ''2018-06-01'' 1 False,
       LogInfo ''Waiting for game to start. Local start time is 19:05'',
       Print ''Use Ctrl-c to quit .'', Sleep 10, Sleep 10])"
  using run_interrupted [of "demo_args\<lparr>wait := True\<rparr>" "''bos''"
      "demo_env [day1] (Some 17)" 0 day1 "[]"
      "\<lparr>mlbdate = 25, home_abbrev = ''nyy'', away_abbrev = ''bos'', gameNumber = ''1''\<rparr>" 17]
  by (simp add: waiting_events_def)

subsection \<open>C6: the iterations of the polling loop\<close>

text \<open>
  C6. Without an interrupt, the polling loop started with \<open>count = 0\<close> runs \<open>n\<close>
  iterations, where \<open>n\<close> is the number of sleeps needed. Iteration \<open>i\<close> (from 1 to \<open>n\<close>)
  sleeps 10 seconds and then prints a dot exactly when \<open>i\<close> is a multiple of 6, so that
  \<open>n div 6\<close> dots are printed. The check after \<open>k\<close> iterations, at time
  \<open>now + 10 * k\<close>, finds the start not reached for every \<open>k < n\<close>, and reached for
  \<open>k = n\<close>, where the loop ends.
\<close>

theorem polling_iterations:
  fixes env :: "('gd, 'r) env" and s :: "'r state"
  assumes "\<And>g. sigint env = Some g \<Longrightarrow> now s + 10 * int (sleeps_needed (now s) t) \<le> g"
  shows "poll_loop env t 0 s =
       (Inr (sleeps_needed (now s) t),
        s\<lparr>now := now s + 10 * int (sleeps_needed (now s) t),
          trace := trace s @
            concat (map (\<lambda>i. Sleep 10 # (if i mod 6 = 0 then [Print ''.''] else []))
                      [1 ..< sleeps_needed (now s) t + 1])\<rparr>)
     \<and> length (filter is_Print
          (concat (map (\<lambda>i. Sleep 10 # (if i mod 6 = 0 then [Print ''.''] else []))
                      [1 ..< sleeps_needed (now s) t + 1]) :: 'r event list)) =
         sleeps_needed (now s) t div 6
     \<and> (\<forall>k < sleeps_needed (now s) t. \<not> has_reached_time (s\<lparr>now := now s + 10 * int k\<rparr>) t)
     \<and> has_reached_time (s\<lparr>now := now s + 10 * int (sleeps_needed (now s) t)\<rparr>) t"
proof -
  let ?n = "sleeps_needed (now s) t"
  have ev: "polling_events 0 ?n =
      (concat (map (\<lambda>i. Sleep 10 # (if i mod 6 = 0 then [Print ''.''] else []))
                 [1 ..< ?n + 1]) :: 'r event list)"
    by (simp add: polling_events_def iteration_events_def [abs_def])
  have 1: "poll_loop env t 0 s =
       (Inr ?n,
        s\<lparr>now := now s + 10 * int ?n,
          trace := trace s @
            concat (map (\<lambda>i. Sleep 10 # (if i mod 6 = 0 then [Print ''.''] else []))
                      [1 ..< ?n + 1])\<rparr>)"
  proof -
    have "poll_loop env t 0 s =
       (Inr (0 + ?n),
        s\<lparr>now := now s + 10 * int ?n, trace := trace s @ polling_events 0 ?n\<rparr>)"
      by (rule poll_loop_completes) (rule assms)
    then show ?thesis by (simp only: add_0 ev)
  qed
  have 2: "length (filter is_Print
          (concat (map (\<lambda>i. Sleep 10 # (if i mod 6 = 0 then [Print ''.''] else []))
                      [1 ..< ?n + 1]) :: 'r event list)) = ?n div 6"
    using polling_events_dots [of ?n, where ?'a = 'r] by (simp only: ev)
  have 3: "\<forall>k < ?n. \<not> has_reached_time (s\<lparr>now := now s + 10 * int k\<rparr>) t"
    using sleeps_needed_least [of _ "now s" t] by (auto simp: has_reached_time_def not_le)
  have 4: "has_reached_time (s\<lparr>now := now s + 10 * int ?n\<rparr>) t"
    using sleeps_needed_reach [of t "now s"] by (simp add: has_reached_time_def)
  from 1 2 3 4 show ?thesis by blast
qed

theorem polling_iterations_witness:
  "sigint (demo_env [] None) = None
   \<and> poll_loop (demo_env [] None) 65 0 \<lparr>now = 0, config = Map.empty, trace = []\<rparr> =
       (Inr 7,
        \<lparr>now = 70, config = Map.empty,
         trace = [Sleep 10, Sleep 10, Sleep 10, Sleep 10, Sleep 10, Sleep 10, Print ''.'',
                  Sleep 10]\<rparr>)"
  using polling_iterations [of "demo_env [] None" "\<lparr>now = 0, config = Map.empty, trace = []\<rparr>" 65]
  by (simp add: upt_rec)

subsection \<open>C7: the initial selection\<close>

text \<open>
  C7, as amended. The first fetch asks the catalogue for the requested date and for the
  whole span of \<open>days\<close>, but the initial record is selected from the first entry of the
  answer only: the later entries \<open>rest\<close> play no part. When no wait happens, the player is
  called once, with that record.
\<close>

theorem initial_selection_from_first_day:
  fixes env :: "('gd, 'x game_rec_scheme) env"
  assumes "truthy (standings a) = None" "team_to_play_of a = Some t"
    and "retrieve_and_display_game_data env t0 (date_of env a t0) (days a) False = gd # rest"
    and "\<not> wait a \<or> (\<exists>r. get_game_rec env gd t (game a) = Some r \<and> mlbdate r \<le> t0)"
  shows "hd (filter is_Retrieve (snd (run env a t0))) = Retrieve (date_of env a t0) (days a) False
     \<and> filter is_PlayStream (snd (run env a t0)) =
         [PlayStream (get_game_rec env gd t (game a)) t (feedtype_of env a) (date_of env a t0)
            (fetch a) (from_start a) (inning a)]"
  by (simp add: run_direct [OF assms] play_event_def)

theorem initial_selection_from_first_day_witness:
  "retrieve_and_display_game_data (demo_env [] None) 0 ''2018-06-01'' 2 False = [day1, day2]
   \<and> \<not> wait (demo_args\<lparr>team := Some ''TOR'', days := 2\<rparr>)
   \<and> filter is_PlayStream
       (snd (run (demo_env [] None) (demo_args\<lparr>team := Some ''TOR'', days := 2\<rparr>) 0)) =
       [PlayStream (select day1 ''tor'' ''1'') ''tor'' None ''2018-06-01'' False False None]"
  using initial_selection_from_first_day [of "demo_args\<lparr>team := Some ''TOR'', days := 2\<rparr>"
      "''tor''" "demo_env [] None" 0 day1 "[day2]"]
  by simp

text \<open>
  C7, as stated, has the selector run over the whole span. In the catalogue of two days,
  Toronto plays on the second day only: the selector of the spec, run over both days, finds
  that game, while the run \<open>mlbv --team TOR --days 2\<close> hands \<open>None\<close> to the player.
\<close>

theorem selection_over_span_counterexample:
  "retrieve_and_display_game_data (demo_env [] None) 0 ''2018-06-01'' 2 False = [day1, day2]
   \<and> select (concat [day1, day2]) ''tor'' ''1'' =
       Some \<lparr>mlbdate = 86425, home_abbrev = ''tor'', away_abbrev = ''bos'', gameNumber = ''1''\<rparr>
   \<and> run (demo_env [] None) (demo_args\<lparr>team := Some ''TOR'', days := 2\<rparr>) 0 =
       (Inr 1,
        [Retrieve ''2018-06-01'' 2 False,
         PlayStream None ''tor'' None ''2018-06-01'' False False None])"
  using run_direct [of "demo_args\<lparr>team := Some ''TOR'', days := 2\<rparr>" "''tor''"
      "demo_env [] None" 0 day1 "[day2]"]
  by (simp add: play_code_def play_event_def)

subsection \<open>C8: team codes\<close>

text \<open>
  C8. A team argument that passes the test \<open>if args.team:\<close> (a non-empty string; Python
  takes \<open>--team ''\<close> as no team) is lowered: \<open>team_to_play\<close> is its lower-case form, which
  holds no capital letter and is not changed by lowering it again. The warning for this
  code is logged exactly when the lowered code is not among the known team codes, and it is
  the only warning of the run. The known team codes decide nothing else: with any other
  list of codes, the run has the same result and, warnings apart, the same effects. And the
  run goes on with the lowered code: unless standings were asked for, the catalogue is
  fetched without display; when its answer is not empty and no wait happens, the selector is
  run with the lowered code, and the player is called with the record it yields and with
  the lowered code as the team, and its exit code is the result; after a wait that ran to
  its end, the same holds with the first entry of the refreshed answer.
\<close>

theorem unknown_team_code_not_rejected:
  fixes env :: "('gd, 'x game_rec_scheme) env"
  assumes "truthy (team a) = Some code"
  shows "team_to_play_of a = Some (lower code)
     \<and> lower (lower code) = lower code
     \<and> (\<forall>c \<in> set (lower code). \<not> is_capital c)
     \<and> (LogWarn (''Unexpected team code: '' @ lower code) \<in> set (snd (run env a t0))
          \<longleftrightarrow> lower code \<notin> set (TEAM_CODES env))
     \<and> length (filter is_LogWarn (snd (run env a t0))) \<le> 1
     \<and> fst (run (env\<lparr>TEAM_CODES := codes\<rparr>) a t0) = fst (run env a t0)
     \<and> filter (\<lambda>e. \<not> is_LogWarn e) (snd (run (env\<lparr>TEAM_CODES := codes\<rparr>) a t0)) =
         filter (\<lambda>e. \<not> is_LogWarn e) (snd (run env a t0))
     \<and> (truthy (standings a) = None \<longrightarrow>
           filter is_Retrieve (snd (run env a t0)) \<noteq> []
           \<and> hd (filter is_Retrieve (snd (run env a t0))) =
               Retrieve (date_of env a t0) (days a) False)
     \<and> (truthy (standings a) = None
          \<and> retrieve_and_display_game_data env t0 (date_of env a t0) (days a) False = gd # rest
          \<and> (\<not> wait a \<or>
               (\<exists>r. get_game_rec env gd (lower code) (game a) = Some r \<and> mlbdate r \<le> t0)) \<longrightarrow>
           run env a t0 =
             (Inr (play_stream env (get_game_rec env gd (lower code) (game a)) (lower code)
                     (feedtype_of env a) (date_of env a t0) (fetch a) (from_start a) (inning a)),
              team_warning env a @
                [Retrieve (date_of env a t0) (days a) False,
                 PlayStream (get_game_rec env gd (lower code) (game a)) (lower code)
                   (feedtype_of env a) (date_of env a t0) (fetch a) (from_start a) (inning a)]))
     \<and> (truthy (standings a) = None
          \<and> retrieve_and_display_game_data env t0 (date_of env a t0) (days a) False = gd # rest
          \<and> wait a \<and> get_game_rec env gd (lower code) (game a) = Some r \<and> t0 < mlbdate r
          \<and> (\<forall>g. sigint env = Some g \<longrightarrow> t0 + 10 * int (sleeps_needed t0 (mlbdate r)) \<le> g)
          \<and> retrieve_and_display_game_data env (t0 + 10 * int (sleeps_needed t0 (mlbdate r)))
                (date_of env a t0) 1 False = gd2 # rest2 \<longrightarrow>
           fst (run env a t0) =
             Inr (play_stream env (get_game_rec env gd2 (lower code) (game a)) (lower code)
                    (feedtype_of env a) (date_of env a t0) (fetch a) (from_start a) (inning a))
           \<and> last (snd (run env a t0)) =
               PlayStream (get_game_rec env gd2 (lower code) (game a)) (lower code)
                 (feedtype_of env a) (date_of env a t0) (fetch a) (from_start a) (inning a))"
proof -
  have tm: "team_to_play_of a = Some (lower code)"
    using assms by (simp add: team_to_play_of_def)
  have cap: "\<forall>c \<in> set (lower code). \<not> is_capital c"
    using lower_char_not_capital by (auto simp: lower_def)
  obtain evs where r1: "run env a t0 = (fst (run env a t0), team_warning env a @ evs)"
    and r2: "run (env\<lparr>TEAM_CODES := codes\<rparr>) a t0 =
         (fst (run env a t0), team_warning (env\<lparr>TEAM_CODES := codes\<rparr>) a @ evs)"
    and nw: "filter is_LogWarn evs = []"
    using run_TEAM_CODES [of env a t0 codes] by blast
  have s1: "snd (run env a t0) = team_warning env a @ evs"
    by (subst r1) simp
  have s2: "snd (run (env\<lparr>TEAM_CODES := codes\<rparr>) a t0) =
      team_warning (env\<lparr>TEAM_CODES := codes\<rparr>) a @ evs"
    by (subst r2) simp
  have f2: "fst (run (env\<lparr>TEAM_CODES := codes\<rparr>) a t0) = fst (run env a t0)"
    by (subst r2) simp
  have notin: "LogWarn (''Unexpected team code: '' @ lower code) \<notin> set evs"
  proof
    assume "LogWarn (''Unexpected team code: '' @ lower code) \<in> set evs"
    then have "LogWarn (''Unexpected team code: '' @ lower code) \<in> set (filter is_LogWarn evs)"
      by simp
    with nw show False by simp
  qed
  have w: "LogWarn (''Unexpected team code: '' @ lower code) \<in> set (snd (run env a t0))
          \<longleftrightarrow> lower code \<notin> set (TEAM_CODES env)"
    using notin by (simp add: s1 team_warning_def tm)
  have one: "length (filter is_LogWarn (snd (run env a t0))) \<le> 1"
    by (simp add: s1 nw team_warning_def tm)
  have same: "filter (\<lambda>e. \<not> is_LogWarn e) (snd (run (env\<lparr>TEAM_CODES := codes\<rparr>) a t0)) =
         filter (\<lambda>e. \<not> is_LogWarn e) (snd (run env a t0))"
    by (simp add: s1 s2)
  have fetch: "truthy (standings a) = None \<longrightarrow>
           filter is_Retrieve (snd (run env a t0)) \<noteq> []
           \<and> hd (filter is_Retrieve (snd (run env a t0))) =
               Retrieve (date_of env a t0) (days a) False"
  proof
    assume std: "truthy (standings a) = None"
    show "filter is_Retrieve (snd (run env a t0)) \<noteq> []
      \<and> hd (filter is_Retrieve (snd (run env a t0))) = Retrieve (date_of env a t0) (days a) False"
    proof (cases rule: run_cases [where a = a and env = env and ?t0.0 = t0])
      case (standings c)
      with std show ?thesis by simp
    next
      case no_team
      with tm show ?thesis by simp
    next
      case (no_games t)
      then show ?thesis using run_no_games [of a t env t0] by simp
    next
      case (direct t gd rest)
      then show ?thesis using run_direct [of a t env t0 gd rest] by simp
    next
      case (type_error t gd rest)
      then show ?thesis using run_type_error [of a t env t0 gd rest] by simp
    next
      case (completes t gd rest r)
      then show ?thesis using run_completes [of a t env t0 gd rest r] by (simp split: list.splits)
    next
      case (interrupted t gd rest r g)
      then show ?thesis using run_interrupted [of a t env t0 gd rest r g] by simp
    qed
  qed
  have direct: "truthy (standings a) = None
          \<and> retrieve_and_display_game_data env t0 (date_of env a t0) (days a) False = gd # rest
          \<and> (\<not> wait a \<or>
               (\<exists>r. get_game_rec env gd (lower code) (game a) = Some r \<and> mlbdate r \<le> t0)) \<longrightarrow>
           run env a t0 =
             (Inr (play_stream env (get_game_rec env gd (lower code) (game a)) (lower code)
                     (feedtype_of env a) (date_of env a t0) (fetch a) (from_start a) (inning a)),
              team_warning env a @
                [Retrieve (date_of env a t0) (days a) False,
                 PlayStream (get_game_rec env gd (lower code) (game a)) (lower code)
                   (feedtype_of env a) (date_of env a t0) (fetch a) (from_start a) (inning a)])"
    using run_direct [of a "lower code" env t0 gd rest] tm
    by (simp add: play_code_def play_event_def)
  have waited: "truthy (standings a) = None
          \<and> retrieve_and_display_game_data env t0 (date_of env a t0) (days a) False = gd # rest
          \<and> wait a \<and> get_game_rec env gd (lower code) (game a) = Some r \<and> t0 < mlbdate r
          \<and> (\<forall>g. sigint env = Some g \<longrightarrow> t0 + 10 * int (sleeps_needed t0 (mlbdate r)) \<le> g)
          \<and> retrieve_and_display_game_data env (t0 + 10 * int (sleeps_needed t0 (mlbdate r)))
                (date_of env a t0) 1 False = gd2 # rest2 \<longrightarrow>
           fst (run env a t0) =
             Inr (play_stream env (get_game_rec env gd2 (lower code) (game a)) (lower code)
                    (feedtype_of env a) (date_of env a t0) (fetch a) (from_start a) (inning a))
           \<and> last (snd (run env a t0)) =
               PlayStream (get_game_rec env gd2 (lower code) (game a)) (lower code)
                 (feedtype_of env a) (date_of env a t0) (fetch a) (from_start a) (inning a)"
    using run_completes [of a "lower code" env t0 gd rest r] tm
    by (simp add: play_code_def play_event_def)
  from tm lower_idem cap w one f2 same fetch direct waited show ?thesis by blast
qed

theorem unknown_team_code_not_rejected_witness:
  "truthy (team (demo_args\<lparr>team := Some ''AL''\<rparr>)) = Some ''AL''
   \<and> ''al'' \<notin> set (TEAM_CODES (demo_env [] None))
   \<and> team_to_play_of (demo_args\<lparr>team := Some ''AL''\<rparr>) = Some ''al''
   \<and> LogWarn ''Unexpected team code: al''
        \<in> set (snd (run (demo_env [] None) (demo_args\<lparr>team := Some ''AL''\<rparr>) 0))
   \<and> run (demo_env [] None) (demo_args\<lparr>team := Some ''AL''\<rparr>) 0 =
       (Inr 1,
        [LogWarn ''Unexpected team code: al'',
         Retrieve ''2018-06-01'' 1 False,
         PlayStream None ''al'' None ''2018-06-01'' False False None])"
  using unknown_team_code_not_rejected [where a = "demo_args\<lparr>team := Some ''AL''\<rparr>"
      and code = "''AL''" and env = "demo_env [] None" and ?t0.0 = 0 and codes = "[''al'']"
      and gd = day1 and rest = "[]"]
  by (simp add: lower_AL truthy_def team_warning_def select_def day1_def)

subsection \<open>C9: at most two fetches\<close>

text \<open>
  C9. In every run, the catalogue is fetched not at all, or once (for the requested date
  and span, with display exactly when no team was given), or twice: first for the requested
  date and span without display, then for the same date, one day, without display.
\<close>

theorem at_most_two_fetches:
  fixes env :: "('gd, 'x game_rec_scheme) env"
  shows "filter is_Retrieve (snd (run env a t0)) = []
     \<or> filter is_Retrieve (snd (run env a t0)) =
         [Retrieve (date_of env a t0) (days a) (team_to_play_of a = None)]
     \<or> filter is_Retrieve (snd (run env a t0)) =
         [Retrieve (date_of env a t0) (days a) False, Retrieve (date_of env a t0) 1 False]"
proof (cases rule: run_cases [where a = a and env = env and ?t0.0 = t0])
  case (standings c)
  then show ?thesis by (simp add: run_standings)
next
  case no_team
  then show ?thesis by (simp add: run_no_team)
next
  case (no_games t)
  then show ?thesis using run_no_games [of a t env t0] by simp
next
  case (direct t gd rest)
  then show ?thesis using run_direct [of a t env t0 gd rest] by simp
next
  case (type_error t gd rest)
  then show ?thesis using run_type_error [of a t env t0 gd rest] by simp
next
  case (completes t gd rest r)
  then show ?thesis using run_completes [of a t env t0 gd rest r] by (simp split: list.splits)
next
  case (interrupted t gd rest r g)
  then show ?thesis using run_interrupted [of a t env t0 gd rest r g] by simp
qed

theorem at_most_two_fetches_witness:
  "filter is_Retrieve (snd (run (demo_env [day1] None) (demo_args\<lparr>wait := True\<rparr>) 0)) = []
   \<or> filter is_Retrieve (snd (run (demo_env [day1] None) (demo_args\<lparr>wait := True\<rparr>) 0)) =
       [Retrieve (date_of (demo_env [day1] None) (demo_args\<lparr>wait := True\<rparr>) 0)
          (days (demo_args\<lparr>wait := True\<rparr>))
          (team_to_play_of (demo_args\<lparr>wait := True\<rparr>) = None)]
   \<or> filter is_Retrieve (snd (run (demo_env [day1] None) (demo_args\<lparr>wait := True\<rparr>) 0)) =
       [Retrieve (date_of (demo_env [day1] None) (demo_args\<lparr>wait := True\<rparr>) 0)
          (days (demo_args\<lparr>wait := True\<rparr>)) False,
        Retrieve (date_of (demo_env [day1] None) (demo_args\<lparr>wait := True\<rparr>) 0) 1 False]"
  by (rule at_most_two_fetches)

subsection \<open>C10: standings first\<close>

text \<open>
  C10. When the standings option is present (and not the empty string, which Python takes
  as false), the run reports an unknown team code if there is one, displays the standings
  and returns 0: there is no catalogue fetch, no sleep and no call of the player, whatever
  the team and the wait flag are.
\<close>

theorem standings_only:
  assumes "standings a = Some c" "c \<noteq> []"
  shows "run env a t0 = (Inr 0, team_warning env a @ [GetStandings c (date_of env a t0)])
     \<and> filter is_Retrieve (snd (run env a t0)) = []
     \<and> filter is_Sleep (snd (run env a t0)) = []
     \<and> filter is_PlayStream (snd (run env a t0)) = []"
proof -
  have "truthy (standings a) = Some c" using assms by (simp add: truthy_def)
  then have "run env a t0 = (Inr 0, team_warning env a @ [GetStandings c (date_of env a t0)])"
    by (rule run_standings)
  then show ?thesis by simp
qed

theorem standings_only_witness:
  "standings (demo_args\<lparr>standings := Some ''division'', wait := True\<rparr>) = Some ''division''
   \<and> ''division'' \<noteq> []
   \<and> run (demo_env [] None) (demo_args\<lparr>standings := Some ''division'', wait := True\<rparr>) 0 =
       (Inr 0, [GetStandings ''division'' ''2018-06-01''])"
  using standings_only [of "demo_args\<lparr>standings := Some ''division'', wait := True\<rparr>"
      "''division''" "demo_env [] None" 0]
  by simp

end
